theory Spec2Isabelle
  imports Main
begin

section \<open>Values, errors and the Python operations the handler uses\<close>

text \<open>
  The handler of \<^verbatim>\<open>05.group-entities/index.py\<close> works on what \<^verbatim>\<open>json.loads\<close> and the
  invoking workflow hand it: JSON values. A Python dict is an association list in
  insertion order, with distinct keys; \<open>map_of\<close> is the lookup. A string is the list of
  its characters, each one code point of the Python string; which characters are
  alphabetic and what their upper case is are Python's Unicode tables, parameters of
  the environment below. JSON numbers are integers.
\<close>

datatype json =
    JNull
  | JBool bool
  | JNum int
  | JStr string
  | JList "json list"
  | JObj "(string \<times> json) list"

type_synonym pydict = "(string \<times> json) list"

text \<open>
  Every exception the handler can meet is a value. \<open>ClientError\<close> (botocore) and
  \<open>JSONDecodeError\<close> are the two the per-reference handler catches; \<open>OtherError\<close> is any
  other exception an external service raises.
\<close>

datatype error =
    ValueError string
  | KeyError json
  | TypeError
  | AttributeError
  | IndexError
  | ClientError
  | JSONDecodeError
  | OtherError string

text \<open>Sequencing of steps that may raise: the first exception wins.\<close>

definition and_then :: "error + 'a \<Rightarrow> ('a \<Rightarrow> error + 'b) \<Rightarrow> error + 'b" where
  "and_then m f = (case m of Inl e \<Rightarrow> Inl e | Inr x \<Rightarrow> f x)"

text \<open>Python's truth value of a JSON value (\<^verbatim>\<open>if x:\<close>, \<^verbatim>\<open>not x\<close>).\<close>

fun truthy :: "json \<Rightarrow> bool" where
  "truthy JNull = False"
| "truthy (JBool b) = b"
| "truthy (JNum n) = (n \<noteq> 0)"
| "truthy (JStr s) = (s \<noteq> [])"
| "truthy (JList xs) = (xs \<noteq> [])"
| "truthy (JObj kvs) = (kvs \<noteq> [])"

text \<open>\<^verbatim>\<open>len(x)\<close>: defined on strings, lists and dicts, a TypeError on the rest.\<close>

fun py_len :: "json \<Rightarrow> error + nat" where
  "py_len (JStr s) = Inr (length s)"
| "py_len (JList xs) = Inr (length xs)"
| "py_len (JObj kvs) = Inr (length kvs)"
| "py_len JNull = Inl TypeError"
| "py_len (JBool b) = Inl TypeError"
| "py_len (JNum n) = Inl TypeError"

text \<open>
  \<^verbatim>\<open>for x in v\<close>: a list gives its elements, a string its one-character strings, a dict
  its keys; anything else is not iterable.
\<close>

fun py_iter :: "json \<Rightarrow> error + json list" where
  "py_iter (JList xs) = Inr xs"
| "py_iter (JStr s) = Inr (map (\<lambda>c. JStr [c]) s)"
| "py_iter (JObj kvs) = Inr (map (\<lambda>kv. JStr (fst kv)) kvs)"
| "py_iter JNull = Inl TypeError"
| "py_iter (JBool b) = Inl TypeError"
| "py_iter (JNum n) = Inl TypeError"

text \<open>
  \<^verbatim>\<open>v["name"]\<close> with a string literal as subscript: a dict looks the key up (KeyError
  when absent); lists and strings want integer indices and the scalars are not
  subscriptable, a TypeError in both cases.
\<close>

fun py_subscript_str :: "json \<Rightarrow> string \<Rightarrow> error + json" where
  "py_subscript_str (JObj kvs) k =
     (case map_of kvs k of None \<Rightarrow> Inl (KeyError (JStr k)) | Some v \<Rightarrow> Inr v)"
| "py_subscript_str JNull k = Inl TypeError"
| "py_subscript_str (JBool b) k = Inl TypeError"
| "py_subscript_str (JNum n) k = Inl TypeError"
| "py_subscript_str (JStr s) k = Inl TypeError"
| "py_subscript_str (JList xs) k = Inl TypeError"

text \<open>Lists and dicts are unhashable: using one as a dict key is a TypeError.\<close>

fun hashable :: "json \<Rightarrow> bool" where
  "hashable (JList xs) = False"
| "hashable (JObj kvs) = False"
| "hashable JNull = True"
| "hashable (JBool b) = True"
| "hashable (JNum n) = True"
| "hashable (JStr s) = True"

text \<open>
  \<^verbatim>\<open>",".join(v)\<close>: \<open>v\<close> is iterated and every element must be a string. \<open>join_strs\<close> is
  the join of the strings themselves.
\<close>

fun join_strs :: "string \<Rightarrow> string list \<Rightarrow> string" where
  "join_strs sep [] = []"
| "join_strs sep [s] = s"
| "join_strs sep (s # t # ss) = s @ sep @ join_strs sep (t # ss)"

fun all_strs :: "json list \<Rightarrow> error + string list" where
  "all_strs [] = Inr []"
| "all_strs (JStr s # vs) = and_then (all_strs vs) (\<lambda>ss. Inr (s # ss))"
| "all_strs (v # vs) = Inl TypeError"

definition py_join :: "string \<Rightarrow> json \<Rightarrow> error + string" where
  "py_join sep v =
     and_then (py_iter v) (\<lambda>xs. and_then (all_strs xs) (\<lambda>ss. Inr (join_strs sep ss)))"

section \<open>The collaborators\<close>

text \<open>
  A Result Record as the handler builds it (lines 122 to 131). The three fields the
  source passes through \<^verbatim>\<open>json.dumps\<close> hold the value that is serialised:
  \<^verbatim>\<open>json.dumps\<close> is injective on JSON values, so the stored text and the value
  determine each other.
\<close>

datatype dumped = Dumps json

record item =
  item_id :: string
  main_entity :: json
  bucket_key :: string
  data_field :: dumped
  summary_field :: dumped
  main_entity_all_edges :: dumped
  main_entity_id :: json
  ttl_timestamp :: int

text \<open>
  The calls that leave the process, each as a parameter:
  \<^item> \<open>get_item\<close>: \<^verbatim>\<open>table.get_item(Key={'id': item_id})\<close>; it raises, or answers
    without \<^verbatim>\<open>'Item'\<close> (\<open>None\<close>), or with the stored item;
  \<^item> \<open>json_loads\<close>: \<^verbatim>\<open>json.loads\<close> on a string, \<open>None\<close> for a JSONDecodeError;
  \<^item> \<open>GraphConnect\<close>, \<open>getOrCreateID\<close>, \<open>connection_close\<close>: the graph library
    \<^verbatim>\<open>connectionsinsights.neptune\<close> (\<open>Some e\<close> and \<open>Inl e\<close>: the call raises \<open>e\<close>);
  \<^item> \<open>uuid4\<close> and \<open>time_time\<close>: \<^verbatim>\<open>str(uuid.uuid4())\<close> and \<^verbatim>\<open>int(time.time())\<close> at
    the n-th iteration of the storing loop;
  \<^item> \<open>put_item\<close>: \<^verbatim>\<open>table.put_item(Item=item)\<close>, \<open>Some e\<close> when it raises \<open>e\<close>;
  \<^item> \<open>py_str\<close>: \<^verbatim>\<open>str(v)\<close> of a value that is not a string, as an f-string formats it;
  \<^item> \<open>str_isalpha\<close> and \<open>str_upper\<close>: \<^verbatim>\<open>c.isalpha()\<close> and \<^verbatim>\<open>c.upper()\<close> of a
    one-character string \<open>c\<close>, as Python's Unicode tables have them. The upper case of
    one character is a string: it can have more than one character (that of the sharp
    s is \<^verbatim>\<open>SS\<close>).
\<close>

record env =
  get_item :: "json \<Rightarrow> error + pydict option"
  json_loads :: "string \<Rightarrow> json option"
  GraphConnect :: "error option"
  getOrCreateID :: "string \<Rightarrow> json \<Rightarrow> json list \<Rightarrow> string list \<Rightarrow> error + json"
  connection_close :: "error option"
  uuid4 :: "nat \<Rightarrow> string"
  time_time :: "nat \<Rightarrow> int"
  put_item :: "item \<Rightarrow> error option"
  py_str :: "json \<Rightarrow> string"
  str_isalpha :: "char \<Rightarrow> bool"
  str_upper :: "char \<Rightarrow> string"

text \<open>
  What \<^verbatim>\<open>logger.warning\<close> and \<^verbatim>\<open>logger.error\<close> record, one constructor for each call
  in the source with the values its message formats. The \<^verbatim>\<open>info\<close> and \<^verbatim>\<open>debug\<close>
  calls change nothing the handler returns or writes and are left out, except for the
  \<^verbatim>\<open>len\<close> of line 31, which can raise.
\<close>

datatype log_entry =
    ErrMissingFields
  | WarnNoItem json
  | ErrDynamoDB json error
  | ErrJSONDecode json error
  | WarnUnknownType json
  | ErrNeptune error
  | ErrStore string error
  | ErrFatal error

datatype graph_event =
    ConnectCall
  | UpsertCall string json "json list" "string list"
  | CloseCall

section \<open>create\_edge (lines 148 to 164)\<close>

text \<open>An f-string field: a string is inserted as it is, any other value through \<open>str\<close>.\<close>

definition fmt :: "env \<Rightarrow> json \<Rightarrow> string" where
  "fmt env v = (case v of JStr s \<Rightarrow> s | _ \<Rightarrow> py_str env v)"

text \<open>
  One of the four lambdas: \<^verbatim>\<open>f"{key}<mid>{','.join(data[attr])}) {main_entity_name}"\<close>,
  where \<open>mid\<close> is the literal text between the key and the joined values.
\<close>

definition edge_text :: "env \<Rightarrow> json \<Rightarrow> string \<Rightarrow> json \<Rightarrow> string \<Rightarrow> json \<Rightarrow> error + string" where
  "edge_text env key mid data attr main_entity_name =
     and_then (py_subscript_str data attr) (\<lambda>v.
     and_then (py_join '','' v) (\<lambda>joined.
       Inr (fmt env key @ mid @ joined @ '') '' @ fmt env main_entity_name)))"

text \<open>
  \<^verbatim>\<open>edge_mappings.get(entity_type)\<close> hashes \<open>entity_type\<close> (a TypeError on a list or a
  dict), finds one of the four string keys or nothing. Nothing: the warning is logged
  and \<open>None\<close> returned. Otherwise the lambda found is called.
\<close>

definition create_edge ::
  "env \<Rightarrow> json \<Rightarrow> json \<Rightarrow> json \<Rightarrow> json \<Rightarrow> (error + string option) \<times> log_entry list" where
  "create_edge env key data main_entity_name entity_type =
     (if \<not> hashable entity_type then (Inl TypeError, [])
      else if entity_type = JStr ''CUSTOMER'' then
        (map_sum id Some
           (edge_text env key '' is a customer of (PRODUCTS_USED:'' data ''PRODUCTS_USED'' main_entity_name), [])
      else if entity_type = JStr ''SUPPLIER'' then
        (map_sum id Some
           (edge_text env key '' is a supplier of (RELATIONSHIP:'' data ''RELATIONSHIP'' main_entity_name), [])
      else if entity_type = JStr ''COMPETITOR'' then
        (map_sum id Some
           (edge_text env key '' is a competitor of (COMPETING_IN:'' data ''COMPETING_IN'' main_entity_name), [])
      else if entity_type = JStr ''DIRECTOR'' then
        (map_sum id Some
           (edge_text env key '' is a director of (ROLE: '' data ''ROLE'' main_entity_name), [])
      else (Inr None, [WarnUnknownType entity_type]))"

section \<open>Resolving the references and partitioning (lines 45 to 87)\<close>

text \<open>
  \<^verbatim>\<open>results\<close> is a dict from bucket key to the list of pairs appended under it, in
  insertion order; \<^verbatim>\<open>results.setdefault(k, []).append(v)\<close> appends to the bucket of
  \<open>k\<close>, which it creates at the end when there is none.
\<close>

type_synonym buckets = "(string \<times> json list) list"

type_synonym acc = "buckets \<times> string list"

fun setdefault_append :: "string \<Rightarrow> json \<Rightarrow> buckets \<Rightarrow> buckets" where
  "setdefault_append k v [] = [(k, [v])]"
| "setdefault_append k v ((k', b) # rest) =
     (if k' = k then (k', b @ [v]) # rest else (k', b) # setdefault_append k v rest)"

text \<open>Line 70, on the character \<^verbatim>\<open>key[0]\<close>.\<close>

definition first_char :: "env \<Rightarrow> char \<Rightarrow> string" where
  "first_char env c = (if str_isalpha env c then str_upper env c else ''#'')"

text \<open>
  The body of \<^verbatim>\<open>for key in data\<close> (lines 65 to 80) when \<open>data\<close> is a dict: \<open>key\<close> is a
  string and \<open>v\<close> is \<^verbatim>\<open>data[key]\<close>. An empty key is skipped. \<^verbatim>\<open>data[key].get("TYPE")\<close>
  needs a dict (AttributeError otherwise) and gives \<open>None\<close>, which is falsy, when
  the key is absent.
\<close>

fun process_pair :: "env \<Rightarrow> json \<Rightarrow> acc \<Rightarrow> string \<times> json \<Rightarrow> (error + acc) \<times> log_entry list" where
  "process_pair env main_entity_name (results, allEdges) ([], v) = (Inr (results, allEdges), [])"
| "process_pair env main_entity_name (results, allEdges) (c # cs, v) =
     (let key = c # cs;
          results' = setdefault_append (first_char env c) (JObj [(key, v)]) results
      in case v of
           JObj d \<Rightarrow>
             (case map_of d ''TYPE'' of
                None \<Rightarrow> (Inr (results', allEdges), [])
              | Some entity_type \<Rightarrow>
                  if truthy entity_type then
                    (case create_edge env (JStr key) v main_entity_name entity_type of
                       (Inl e, lg) \<Rightarrow> (Inl e, lg)
                     | (Inr None, lg) \<Rightarrow> (Inr (results', allEdges), lg)
                     | (Inr (Some edge), lg) \<Rightarrow>
                         (Inr (results', if edge \<noteq> [] then allEdges @ [edge] else allEdges), lg))
                  else (Inr (results', allEdges), []))
         | _ \<Rightarrow> (Inl AttributeError, []))"

text \<open>
  The loop over a dict: its keys are distinct, so iterating the keys and reading
  \<^verbatim>\<open>data[key]\<close> is iterating the pairs. An exception leaves the loop.
\<close>

fun for_pairs :: "env \<Rightarrow> json \<Rightarrow> pydict \<Rightarrow> acc \<Rightarrow> (error + acc) \<times> log_entry list" where
  "for_pairs env main_entity_name [] a = (Inr a, [])"
| "for_pairs env main_entity_name (p # ps) a =
     (case process_pair env main_entity_name a p of
        (Inl e, lg) \<Rightarrow> (Inl e, lg)
      | (Inr a', lg) \<Rightarrow>
          (case for_pairs env main_entity_name ps a' of (r, lg') \<Rightarrow> (r, lg @ lg')))"

text \<open>
  The same loop body when \<open>data\<close> is a list and \<open>key\<close> one of its elements: a falsy
  element is skipped (\<open>None\<close>), every other one raises before anything is appended.
  \<^verbatim>\<open>key[0]\<close> is a TypeError on a number or \<open>True\<close> and \<^verbatim>\<open>KeyError(0)\<close> on a dict; on
  a list, \<^verbatim>\<open>key[0].isalpha()\<close> is an AttributeError unless \<^verbatim>\<open>key[0]\<close> is a string;
  where line 70 passes, \<^verbatim>\<open>data[key]\<close> indexes a list by a string or a list, a
  TypeError.
\<close>

fun list_key_error :: "json \<Rightarrow> error option" where
  "list_key_error JNull = None"
| "list_key_error (JBool b) = (if b then Some TypeError else None)"
| "list_key_error (JNum n) = (if n = 0 then None else Some TypeError)"
| "list_key_error (JStr s) = (if s = [] then None else Some TypeError)"
| "list_key_error (JList []) = None"
| "list_key_error (JList (JStr s # ys)) = Some TypeError"
| "list_key_error (JList (y # ys)) = Some AttributeError"
| "list_key_error (JObj kvs) = (if kvs = [] then None else Some (KeyError (JNum 0)))"

fun first_raise :: "json list \<Rightarrow> error option" where
  "first_raise [] = None"
| "first_raise (x # xs) = (case list_key_error x of Some e \<Rightarrow> Some e | None \<Rightarrow> first_raise xs)"

text \<open>
  \<^verbatim>\<open>for key in data\<close> for any JSON value \<open>data\<close>. A non-empty string gives one-character
  keys and \<^verbatim>\<open>data[key]\<close> indexes a string by a string (TypeError); \<open>null\<close>, booleans
  and numbers are not iterable.
\<close>

fun process_data :: "env \<Rightarrow> json \<Rightarrow> json \<Rightarrow> acc \<Rightarrow> (error + acc) \<times> log_entry list" where
  "process_data env main_entity_name (JObj d) a = for_pairs env main_entity_name d a"
| "process_data env main_entity_name (JList xs) a =
     (case first_raise xs of Some e \<Rightarrow> (Inl e, []) | None \<Rightarrow> (Inr a, []))"
| "process_data env main_entity_name (JStr s) a =
     (if s = [] then (Inr a, []) else (Inl TypeError, []))"
| "process_data env main_entity_name JNull a = (Inl TypeError, [])"
| "process_data env main_entity_name (JBool b) a = (Inl TypeError, [])"
| "process_data env main_entity_name (JNum n) a = (Inl TypeError, [])"

text \<open>
  Line 51, \<^verbatim>\<open>obj[list(obj.keys())[0]]\<close>: the value of the first key of a dict; an
  IndexError on an empty dict, an AttributeError on anything without \<^verbatim>\<open>keys\<close>.
\<close>

fun first_value :: "json \<Rightarrow> error + json" where
  "first_value (JObj []) = Inl IndexError"
| "first_value (JObj ((k, v) # kvs)) = Inr v"
| "first_value JNull = Inl AttributeError"
| "first_value (JBool b) = Inl AttributeError"
| "first_value (JNum n) = Inl AttributeError"
| "first_value (JStr s) = Inl AttributeError"
| "first_value (JList xs) = Inl AttributeError"

text \<open>
  Lines 54 to 80 for one identifier: the fetch, the missing item (warning and
  \<^verbatim>\<open>continue\<close>), \<^verbatim>\<open>response["Item"]["data"]\<close>, \<^verbatim>\<open>json.loads\<close> (a TypeError on a value
  that is not a string) and the loop over the record.
\<close>

definition fetch_and_group :: "env \<Rightarrow> json \<Rightarrow> json \<Rightarrow> acc \<Rightarrow> (error + acc) \<times> log_entry list" where
  "fetch_and_group env main_entity_name ident a =
     (case get_item env ident of
        Inl e \<Rightarrow> (Inl e, [])
      | Inr None \<Rightarrow> (Inr a, [WarnNoItem ident])
      | Inr (Some stored) \<Rightarrow>
          (case map_of stored ''data'' of
             None \<Rightarrow> (Inl (KeyError (JStr ''data'')), [])
           | Some (JStr s) \<Rightarrow>
               (case json_loads env s of
                  None \<Rightarrow> (Inl JSONDecodeError, [])
                | Some data \<Rightarrow> process_data env main_entity_name data a)
           | Some _ \<Rightarrow> (Inl TypeError, [])))"

text \<open>
  The \<^verbatim>\<open>try\<close> of lines 50 to 87 for one element of \<^verbatim>\<open>event["output"]\<close>. ClientError and
  JSONDecodeError are logged and the loop continues; both are raised before the
  record is looked at, so the accumulators are as they were. Any other exception
  leaves the loop.
\<close>

definition process_output_item :: "env \<Rightarrow> json \<Rightarrow> json \<Rightarrow> acc \<Rightarrow> (error + acc) \<times> log_entry list" where
  "process_output_item env main_entity_name obj a =
     (case first_value obj of
        Inl e \<Rightarrow> (Inl e, [])
      | Inr ident \<Rightarrow>
          (case fetch_and_group env main_entity_name ident a of
             (Inr a', lg) \<Rightarrow> (Inr a', lg)
           | (Inl e, lg) \<Rightarrow>
               if e = ClientError then (Inr a, lg @ [ErrDynamoDB ident e])
               else if e = JSONDecodeError then (Inr a, lg @ [ErrJSONDecode ident e])
               else (Inl e, lg)))"

fun for_output :: "env \<Rightarrow> json \<Rightarrow> json list \<Rightarrow> acc \<Rightarrow> (error + acc) \<times> log_entry list" where
  "for_output env main_entity_name [] a = (Inr a, [])"
| "for_output env main_entity_name (obj # objs) a =
     (case process_output_item env main_entity_name obj a of
        (Inl e, lg) \<Rightarrow> (Inl e, lg)
      | (Inr a', lg) \<Rightarrow>
          (case for_output env main_entity_name objs a' of (r, lg') \<Rightarrow> (r, lg @ lg')))"

section \<open>The graph upsert (lines 89 to 112)\<close>

text \<open>
  Lines 97 to 101. \<^verbatim>\<open>attribute[key] = ",".join(value)\<close> writes into the attribute dict
  itself, at the key's place; \<open>flatten_pairs\<close> is the dict after the inner loop.
\<close>

fun flatten_pairs :: "pydict \<Rightarrow> error + pydict" where
  "flatten_pairs [] = Inr []"
| "flatten_pairs ((k, v) # kvs) =
     and_then (case v of JList xs \<Rightarrow> map_sum id JStr (py_join '','' (JList xs)) | _ \<Rightarrow> Inr v) (\<lambda>v'.
     and_then (flatten_pairs kvs) (\<lambda>kvs'. Inr ((k, v') # kvs')))"

fun flatten_attribute :: "json \<Rightarrow> error + json" where
  "flatten_attribute (JObj kvs) = map_sum id JObj (flatten_pairs kvs)"
| "flatten_attribute JNull = Inl AttributeError"
| "flatten_attribute (JBool b) = Inl AttributeError"
| "flatten_attribute (JNum n) = Inl AttributeError"
| "flatten_attribute (JStr s) = Inl AttributeError"
| "flatten_attribute (JList xs) = Inl AttributeError"

fun flatten_all :: "json list \<Rightarrow> error + json list" where
  "flatten_all [] = Inr []"
| "flatten_all (x # xs) =
     and_then (flatten_attribute x) (\<lambda>x'. and_then (flatten_all xs) (\<lambda>xs'. Inr (x' # xs')))"

definition process_attributes :: "json \<Rightarrow> error + json list" where
  "process_attributes attributes = and_then (py_iter attributes) flatten_all"

text \<open>
  The \<^verbatim>\<open>try\<close> of lines 90 to 112: connect, flatten, upsert, close. The first exception
  ends it; the result carries the calls made to the graph library so far.
\<close>

definition upsert_main_entity ::
  "env \<Rightarrow> json \<Rightarrow> json \<Rightarrow> string list \<Rightarrow> (error + json \<times> json list) \<times> graph_event list" where
  "upsert_main_entity env main_entity_name attributes allEdges =
     (case GraphConnect env of
        Some e \<Rightarrow> (Inl e, [ConnectCall])
      | None \<Rightarrow>
          (case process_attributes attributes of
             Inl e \<Rightarrow> (Inl e, [ConnectCall])
           | Inr processed \<Rightarrow>
               (let call = UpsertCall ''COMPANY'' main_entity_name processed allEdges in
                case getOrCreateID env ''COMPANY'' main_entity_name processed allEdges of
                  Inl e \<Rightarrow> (Inl e, [ConnectCall, call])
                | Inr ident \<Rightarrow>
                    (case connection_close env of
                       Some e \<Rightarrow> (Inl e, [ConnectCall, call, CloseCall])
                     | None \<Rightarrow> (Inr (ident, processed), [ConnectCall, call, CloseCall])))))"

text \<open>
  \<^verbatim>\<open>attributes\<close> is the list object inside \<^verbatim>\<open>summary\<close>, and its elements are the dicts
  the flattening wrote into: after line 101, \<^verbatim>\<open>summary["MAIN_ENTITY"]["ATTRIBUTES"]\<close>
  holds the flattened dicts. (When \<^verbatim>\<open>ATTRIBUTES\<close> is not a list, the loop either raised
  or had nothing to iterate.)
\<close>

fun dict_set :: "string \<Rightarrow> json \<Rightarrow> pydict \<Rightarrow> pydict" where
  "dict_set k v [] = [(k, v)]"
| "dict_set k v ((k', v') # kvs) =
     (if k' = k then (k, v) # kvs else (k', v') # dict_set k v kvs)"

definition summary_after :: "json \<Rightarrow> json list \<Rightarrow> json" where
  "summary_after summary processed =
     (case summary of
        JObj s \<Rightarrow>
          (case map_of s ''MAIN_ENTITY'' of
             Some (JObj m) \<Rightarrow>
               (case map_of m ''ATTRIBUTES'' of
                  Some (JList old) \<Rightarrow>
                    JObj (dict_set ''MAIN_ENTITY''
                            (JObj (dict_set ''ATTRIBUTES'' (JList processed) m)) s)
                | _ \<Rightarrow> summary)
           | _ \<Rightarrow> summary)
      | _ \<Rightarrow> summary)"

section \<open>Storing the results (lines 114 to 142)\<close>

definition make_item ::
  "env \<Rightarrow> json \<Rightarrow> json \<Rightarrow> string list \<Rightarrow> json \<Rightarrow> nat \<Rightarrow> string \<times> json list \<Rightarrow> item" where
  "make_item env main_entity_name summary allEdges ident n kb =
     \<lparr> item_id = uuid4 env n,
       main_entity = main_entity_name,
       bucket_key = fst kb,
       data_field = Dumps (JList (snd kb)),
       summary_field = Dumps summary,
       main_entity_all_edges = Dumps (JList (map JStr allEdges)),
       main_entity_id = ident,
       ttl_timestamp = time_time env n + 7200 \<rparr>"

text \<open>
  The loop over \<^verbatim>\<open>results\<close>, from its n-th iteration on: the identifiers appended to
  \<^verbatim>\<open>uuids\<close> (or the exception that left the loop), the items written, the log. A
  ClientError of \<^verbatim>\<open>put_item\<close> is logged and the bucket skipped.
\<close>

fun store_results ::
  "env \<Rightarrow> json \<Rightarrow> json \<Rightarrow> string list \<Rightarrow> json \<Rightarrow> nat \<Rightarrow> buckets
     \<Rightarrow> (error + string list) \<times> item list \<times> log_entry list" where
  "store_results env main_entity_name summary allEdges ident n [] = (Inr [], [], [])"
| "store_results env main_entity_name summary allEdges ident n (kb # rest) =
     (let it = make_item env main_entity_name summary allEdges ident n kb in
      case put_item env it of
        None \<Rightarrow>
          (case store_results env main_entity_name summary allEdges ident (Suc n) rest of
             (r, w, lg) \<Rightarrow> (map_sum id ((#) (item_id it)) r, it # w, lg))
      | Some e \<Rightarrow>
          if e = ClientError then
            (case store_results env main_entity_name summary allEdges ident (Suc n) rest of
               (r, w, lg) \<Rightarrow> (r, w, ErrStore (fst kb) e # lg))
          else (Inl e, [], []))"

section \<open>The handler (lines 28 to 146)\<close>

text \<open>
  What one invocation does: what it returns or raises, the calls it made to the graph
  library, the items it wrote to the table, and its warnings and errors.
\<close>

record outcome =
  ret :: "error + string list"
  graph_calls :: "graph_event list"
  written :: "item list"
  logged :: "log_entry list"

text \<open>The outer \<^verbatim>\<open>except\<close> (lines 144 to 146) for an exception raised before line 89.\<close>

definition fatal :: "error \<Rightarrow> log_entry list \<Rightarrow> outcome" where
  "fatal e lg = \<lparr> ret = Inl e, graph_calls = [], written = [], logged = lg @ [ErrFatal e] \<rparr>"

definition main_entity_fields :: "json \<Rightarrow> error + json \<times> json" where
  "main_entity_fields summary =
     and_then (py_subscript_str summary ''MAIN_ENTITY'') (\<lambda>m.
     and_then (py_subscript_str m ''NAME'') (\<lambda>name.
     and_then (py_subscript_str m ''ATTRIBUTES'') (\<lambda>attributes. Inr (name, attributes))))"

text \<open>Lines 38 to 142, once the event has passed the validation.\<close>

definition run :: "env \<Rightarrow> json \<Rightarrow> json \<Rightarrow> outcome" where
  "run env summary output =
     (case main_entity_fields summary of
        Inl e \<Rightarrow> fatal e []
      | Inr (main_entity_name, attributes) \<Rightarrow>
          (case py_iter output of
             Inl e \<Rightarrow> fatal e []
           | Inr objs \<Rightarrow>
               (case for_output env main_entity_name objs ([], []) of
                  (Inl e, lg) \<Rightarrow> fatal e lg
                | (Inr (results, allEdges), lg) \<Rightarrow>
                    (case upsert_main_entity env main_entity_name attributes allEdges of
                       (Inl e, calls) \<Rightarrow>
                         \<lparr> ret = Inl e, graph_calls = calls, written = [],
                           logged = lg @ [ErrNeptune e, ErrFatal e] \<rparr>
                     | (Inr (ident, processed), calls) \<Rightarrow>
                         (case store_results env main_entity_name (summary_after summary processed)
                                 allEdges ident 0 results of
                            (r, w, lg') \<Rightarrow>
                              \<lparr> ret = r, graph_calls = calls, written = w,
                                logged = lg @ lg' @
                                  (case r of Inl e \<Rightarrow> [ErrFatal e] | Inr ids \<Rightarrow> []) \<rparr>)))))"

definition missing_fields :: outcome where
  "missing_fields =
     fatal (ValueError ''Missing required fields in event: Summary or output'') [ErrMissingFields]"

text \<open>
  The event is a dict. Line 31 takes \<^verbatim>\<open>len(event.get('output', []))\<close> before the
  validation of line 34; \<^verbatim>\<open>event.get(k)\<close> is \<open>None\<close>, falsy, for an absent key.
\<close>

definition lambda_handler :: "env \<Rightarrow> pydict \<Rightarrow> outcome" where
  "lambda_handler env event =
     (case py_len (case map_of event ''output'' of None \<Rightarrow> JList [] | Some v \<Rightarrow> v) of
        Inl e \<Rightarrow> fatal e []
      | Inr n \<Rightarrow>
          (case map_of event ''Summary'' of
             None \<Rightarrow> missing_fields
           | Some summary \<Rightarrow>
               (case map_of event ''output'' of
                  None \<Rightarrow> missing_fields
                | Some output \<Rightarrow>
                    if truthy summary \<and> truthy output then run env summary output
                    else missing_fields)))"

section \<open>The edge template of the specification\<close>

text \<open>
  The specification's edge template, per TYPE: the relation word, the qualifier label
  (which is also the name of the type-specific attribute) and the text between the
  colon and the joined values. The specification's scenario for DIRECTOR renders
  \<^verbatim>\<open>(ROLE: CEO)\<close>, with a space there; the other three have none.
\<close>

definition spec_edge_template :: "string \<Rightarrow> (string \<times> string \<times> string) option" where
  "spec_edge_template ty =
     (if ty = ''CUSTOMER'' then Some (''customer'', ''PRODUCTS_USED'', '''')
      else if ty = ''SUPPLIER'' then Some (''supplier'', ''RELATIONSHIP'', '''')
      else if ty = ''COMPETITOR'' then Some (''competitor'', ''COMPETING_IN'', '''')
      else if ty = ''DIRECTOR'' then Some (''director'', ''ROLE'', '' '')
      else None)"


section \<open>Predicates of the statements\<close>



text \<open>A TYPE value that is one of the four keys of \<^verbatim>\<open>edge_mappings\<close>.\<close>

definition recognized :: "json \<Rightarrow> bool" where
  "recognized t = (t = JStr ''CUSTOMER'' \<or> t = JStr ''SUPPLIER'' \<or> t = JStr ''COMPETITOR''
                    \<or> t = JStr ''DIRECTOR'')"

text \<open>
  The pair \<open>x\<close> stands in the bucket of key \<open>bk\<close>; a pair as line 71 builds it, with
  a non-empty key whose first character gives the bucket key \<open>bk\<close>; a pair with a
  non-empty key; buckets that are non-empty and hold only pairs filed under the right
  key.
\<close>

definition in_bucket :: "buckets \<Rightarrow> string \<Rightarrow> json \<Rightarrow> bool" where
  "in_bucket results bk x = list_ex (\<lambda>kb. fst kb = bk \<and> x \<in> set (snd kb)) results"

fun pair_ok :: "env \<Rightarrow> string \<Rightarrow> json \<Rightarrow> bool" where
  "pair_ok env bk (JObj [(c # cs, v)]) = (bk = first_char env c)"
| "pair_ok env bk x = False"

fun nonempty_key_pair :: "json \<Rightarrow> bool" where
  "nonempty_key_pair (JObj [(c # cs, v)]) = True"
| "nonempty_key_pair x = False"

definition buckets_ok :: "env \<Rightarrow> buckets \<Rightarrow> bool" where
  "buckets_ok env results =
     list_all (\<lambda>kb. snd kb \<noteq> [] \<and> list_all (pair_ok env (fst kb)) (snd kb)) results"

text \<open>
  The flattening step changes an attribute list exactly when one of its attribute dicts
  has a list as a value.
\<close>

fun is_list :: "json \<Rightarrow> bool" where
  "is_list (JList xs) = True"
| "is_list v = False"

fun has_list_value :: "json \<Rightarrow> bool" where
  "has_list_value (JObj kvs) = list_ex (\<lambda>kv. is_list (snd kv)) kvs"
| "has_list_value v = False"

fun flattening_changes :: "json \<Rightarrow> bool" where
  "flattening_changes (JList as) = list_ex has_list_value as"
| "flattening_changes v = False"

text \<open>
  Well-formed data, as the data model of the specification has it. A descriptor is a
  dict whose TYPE, when present, is falsy (no TYPE in effect), or a string that is not
  one of the four, or one of the four together with its type-specific attribute as a
  list of strings, or a number or boolean (which no key of \<^verbatim>\<open>edge_mappings\<close>
  equals). A stored record is a dict of descriptors; the descriptor of an empty key
  is never looked at. A reference is in order when it is a non-empty dict whose
  identifier has no record, or whose fetch raises ClientError, or whose payload does
  not parse, or parses to a well-formed record. The attributes of the main entity
  are a list of dicts whose list values are lists of strings.
\<close>

fun is_str :: "json \<Rightarrow> bool" where
  "is_str (JStr s) = True"
| "is_str v = False"

fun str_list :: "json option \<Rightarrow> bool" where
  "str_list (Some (JList xs)) = list_all is_str xs"
| "str_list v = False"

definition wf_type :: "pydict \<Rightarrow> json \<Rightarrow> bool" where
  "wf_type d t =
     (\<not> truthy t \<or>
      (case t of
         JStr ty \<Rightarrow>
           (case spec_edge_template ty of
              None \<Rightarrow> True
            | Some (relation, attr, gap) \<Rightarrow> str_list (map_of d attr))
       | _ \<Rightarrow> hashable t))"

fun wf_descriptor :: "json \<Rightarrow> bool" where
  "wf_descriptor (JObj d) = (case map_of d ''TYPE'' of None \<Rightarrow> True | Some t \<Rightarrow> wf_type d t)"
| "wf_descriptor v = False"

definition wf_record :: "pydict \<Rightarrow> bool" where
  "wf_record d = list_all (\<lambda>kv. fst kv = [] \<or> wf_descriptor (snd kv)) d"

definition reference_ok :: "env \<Rightarrow> json \<Rightarrow> bool" where
  "reference_ok env obj =
     (case first_value obj of
        Inl e \<Rightarrow> False
      | Inr ident \<Rightarrow>
          (case get_item env ident of
             Inl e \<Rightarrow> e = ClientError
           | Inr None \<Rightarrow> True
           | Inr (Some stored) \<Rightarrow>
               (case map_of stored ''data'' of
                  Some (JStr s) \<Rightarrow>
                    (case json_loads env s of
                       None \<Rightarrow> True
                     | Some (JObj d) \<Rightarrow> wf_record d
                     | Some _ \<Rightarrow> False)
                | _ \<Rightarrow> False)))"

fun wf_attribute :: "json \<Rightarrow> bool" where
  "wf_attribute (JObj kvs) = list_all (\<lambda>kv. is_list (snd kv) \<longrightarrow> str_list (Some (snd kv))) kvs"
| "wf_attribute v = False"

fun wf_attributes :: "json \<Rightarrow> bool" where
  "wf_attributes (JList as) = list_all wf_attribute as"
| "wf_attributes v = False"

section \<open>Example inputs\<close>

text \<open>
  An environment for the examples. The table holds five records: \<open>r1\<close> (four
  entities, one of them with an empty key, one with a TYPE outside the four), \<open>r2\<close>
  (a CUSTOMER without PRODUCTS_USED), \<open>r3\<close> (a payload that does not parse), \<open>r5\<close>
  (two entities whose names begin with the capital E with acute accent, U+00C9, and
  with the sharp s, U+00DF) and \<open>r6\<close> (an entity whose TYPE is a list); there is no
  record \<open>r4\<close>. The graph library answers and
  every write succeeds. The character tables are Python's on the ASCII characters and
  on U+00C9, U+00E9 and U+00DF: these three and the ASCII letters are alphabetic, the
  upper case of U+00E9 is U+00C9, that of U+00DF is \<^verbatim>\<open>SS\<close>.
\<close>

definition record1 :: json where
  "record1 = JObj
     [(''Bob'', JObj [(''TYPE'', JStr ''DIRECTOR''), (''ROLE'', JList [JStr ''CEO''])]),
      (''3M'', JObj [(''TYPE'', JStr ''SUPPLIER''), (''RELATIONSHIP'', JList [JStr ''tape'', JStr ''glue''])]),
      ('''', JObj [(''TYPE'', JStr ''CUSTOMER'')]),
      (''bolt'', JObj [(''TYPE'', JStr ''PARTNER'')])]"

definition record2 :: json where
  "record2 = JObj [(''Xcorp'', JObj [(''TYPE'', JStr ''CUSTOMER'')])]"

definition record5 :: json where
  "record5 = JObj [(CHR 0xC9 # ''mile'', JObj []), (CHR 0xDF # ''eta'', JObj [])]"

definition record6 :: json where
  "record6 = JObj [(''Zed'', JObj [(''TYPE'', JList [JStr ''DIRECTOR''])])]"

definition env0 :: env where
  "env0 =
     \<lparr> get_item = (\<lambda>i.
         if i = JStr ''r1'' then Inr (Some [(''id'', JStr ''r1''), (''data'', JStr ''d1'')])
         else if i = JStr ''r2'' then Inr (Some [(''id'', JStr ''r2''), (''data'', JStr ''d2'')])
         else if i = JStr ''r3'' then Inr (Some [(''id'', JStr ''r3''), (''data'', JStr ''{not json'')])
         else if i = JStr ''r5'' then Inr (Some [(''id'', JStr ''r5''), (''data'', JStr ''d5'')])
         else if i = JStr ''r6'' then Inr (Some [(''id'', JStr ''r6''), (''data'', JStr ''d6'')])
         else Inr None),
       json_loads = (\<lambda>s.
         if s = ''d1'' then Some record1 else if s = ''d2'' then Some record2
         else if s = ''d5'' then Some record5 else if s = ''d6'' then Some record6 else None),
       GraphConnect = None,
       getOrCreateID = (\<lambda>label name attrs edges. Inr (JStr ''node-1'')),
       connection_close = None,
       uuid4 = (\<lambda>n. replicate (Suc n) CHR ''u''),
       time_time = (\<lambda>n. 1000),
       put_item = (\<lambda>it. None),
       py_str = (\<lambda>v. ''?''),
       str_isalpha = (\<lambda>c.
         c \<in> set ''abcdefghijklmnopqrstuvwxyz'' \<or> c \<in> set ''ABCDEFGHIJKLMNOPQRSTUVWXYZ''
         \<or> c \<in> set [CHR 0xC9, CHR 0xE9, CHR 0xDF]),
       str_upper = (\<lambda>c.
         case map_of (zip ''abcdefghijklmnopqrstuvwxyz'' ''ABCDEFGHIJKLMNOPQRSTUVWXYZ'') c of
           Some u \<Rightarrow> [u]
         | None \<Rightarrow> if c = CHR 0xE9 then [CHR 0xC9] else if c = CHR 0xDF then ''SS'' else [c]) \<rparr>"

text \<open>The same environment with a graph upsert that raises.\<close>

definition env_graph_down :: env where
  "env_graph_down =
     env0 \<lparr> getOrCreateID := (\<lambda>label name attrs edges. Inl (OtherError ''graph down'')) \<rparr>"

text \<open>
  A Summary with one list-valued attribute, the same Summary once flattened, a
  reference as it stands in \<^verbatim>\<open>event["output"]\<close>, and four batches.
\<close>

definition summary0 :: json where
  "summary0 = JObj
     [(''MAIN_ENTITY'', JObj
        [(''NAME'', JStr ''Acme''),
         (''ATTRIBUTES'', JList [JObj [(''INDUSTRY'', JList [JStr ''tools'', JStr ''toys''])]])])]"

definition summary0_flattened :: json where
  "summary0_flattened = JObj
     [(''MAIN_ENTITY'', JObj
        [(''NAME'', JStr ''Acme''),
         (''ATTRIBUTES'', JList [JObj [(''INDUSTRY'', JStr ''tools,toys'')]])])]"

definition ref :: "string \<Rightarrow> json" where
  "ref ident = JObj [(''ref'', JStr ident)]"

definition event0 :: pydict where
  "event0 = [(''Summary'', summary0), (''output'', JList [JObj [(''ref'', JStr ''r1'')]])]"

definition event_r1_r2 :: pydict where
  "event_r1_r2 =
     [(''Summary'', summary0),
      (''output'', JList [JObj [(''ref'', JStr ''r1'')], JObj [(''ref'', JStr ''r2'')]])]"

definition event_r4 :: pydict where
  "event_r4 = [(''Summary'', summary0), (''output'', JList [ref ''r4''])]"

definition event_r6 :: pydict where
  "event_r6 = [(''Summary'', summary0), (''output'', JList [ref ''r6''])]"

text \<open>A batch whose Summary has an attribute with a list of numbers as its value.\<close>

definition event_years :: pydict where
  "event_years =
     [(''Summary'', JObj
        [(''MAIN_ENTITY'', JObj
           [(''NAME'', JStr ''Acme''),
            (''ATTRIBUTES'', JList [JObj [(''YEARS'', JList [JNum 1999, JNum 2000])]])])]),
      (''output'', JList [ref ''r1''])]"

text \<open>
  The buckets and edges once the record \<open>r5\<close>, or the record \<open>r1\<close>, has been
  processed, and the Result Record of bucket \<open>B\<close> that the batch \<open>event0\<close> writes.
\<close>

definition acc_r5 :: acc where
  "acc_r5 =
     ([([CHR 0xC9], [JObj [(CHR 0xC9 # ''mile'', JObj [])]]),
       (''SS'', [JObj [(CHR 0xDF # ''eta'', JObj [])]])],
      [])"

definition acc_r1 :: acc where
  "acc_r1 =
     ([(''B'', [JObj [(''Bob'', JObj [(''TYPE'', JStr ''DIRECTOR''), (''ROLE'', JList [JStr ''CEO''])])],
               JObj [(''bolt'', JObj [(''TYPE'', JStr ''PARTNER'')])]]),
       (''#'', [JObj [(''3M'', JObj [(''TYPE'', JStr ''SUPPLIER''),
                                    (''RELATIONSHIP'', JList [JStr ''tape'', JStr ''glue''])])]])],
      [''Bob is a director of (ROLE: CEO) Acme'',
       ''3M is a supplier of (RELATIONSHIP:tape,glue) Acme''])"

definition item_B :: item where
  "item_B =
     \<lparr> item_id = ''u'', main_entity = JStr ''Acme'', bucket_key = ''B'',
       data_field = Dumps (JList
         [JObj [(''Bob'', JObj [(''TYPE'', JStr ''DIRECTOR''), (''ROLE'', JList [JStr ''CEO''])])],
          JObj [(''bolt'', JObj [(''TYPE'', JStr ''PARTNER'')])]]),
       summary_field = Dumps summary0_flattened,
       main_entity_all_edges = Dumps (JList
         [JStr ''Bob is a director of (ROLE: CEO) Acme'',
          JStr ''3M is a supplier of (RELATIONSHIP:tape,glue) Acme'']),
       main_entity_id = JStr ''node-1'', ttl_timestamp = 8200 \<rparr>"

section \<open>Verified properties\<close>

subsection \<open>Auxiliary facts\<close>

text \<open>Joining strings, and the edge text of a well-formed descriptor.\<close>

lemma all_strs_map: "all_strs (map JStr vs) = Inr vs"
  by (induction vs) (simp_all add: and_then_def)

lemma py_join_strs: "py_join sep (JList (map JStr vs)) = Inr (join_strs sep vs)"
  by (simp add: py_join_def and_then_def all_strs_map)


text \<open>The definitions that evaluating the handler on an example unfolds.\<close>

lemmas eval_defs = lambda_handler_def run_def main_entity_fields_def fatal_def missing_fields_def
  process_output_item_def fetch_and_group_def upsert_main_entity_def process_attributes_def
  summary_after_def make_item_def create_edge_def edge_text_def and_then_def py_join_def fmt_def
  first_char_def Let_def env0_def record1_def record2_def summary0_def


lemma upsert_calls:
  assumes "upsert_main_entity env name attributes allEdges = (r, calls)"
    and "UpsertCall l n a es \<in> set calls"
    and "getOrCreateID env l n a es = Inl e"
  shows "r = Inl e"
  using assms
  by (auto simp: upsert_main_entity_def Let_def split: option.splits sum.splits)

lemma outcome_graph_down:
  "lambda_handler env_graph_down event0 =
     \<lparr> ret = Inl (OtherError ''graph down''),
       graph_calls =
         [ConnectCall,
          UpsertCall ''COMPANY'' (JStr ''Acme'') [JObj [(''INDUSTRY'', JStr ''tools,toys'')]]
            [''Bob is a director of (ROLE: CEO) Acme'',
             ''3M is a supplier of (RELATIONSHIP:tape,glue) Acme'']],
       written = [],
       logged = [WarnUnknownType (JStr ''PARTNER''), ErrNeptune (OtherError ''graph down''),
                 ErrFatal (OtherError ''graph down'')] \<rparr>"
  by (simp add: eval_defs env_graph_down_def event0_def)

text \<open>The two loops on a list that is the concatenation of two.\<close>

lemma for_pairs_append:
  "for_pairs env n (ps @ qs) a =
     (case for_pairs env n ps a of
        (Inl e, lg) \<Rightarrow> (Inl e, lg)
      | (Inr a', lg) \<Rightarrow> (case for_pairs env n qs a' of (r, lg') \<Rightarrow> (r, lg @ lg')))"
proof (induction ps arbitrary: a)
  case Nil
  then show ?case by (simp split: prod.splits)
next
  case (Cons p ps)
  show ?case
    by (simp add: Cons.IH split: prod.splits sum.splits)
qed

lemma for_output_append:
  "for_output env n (ps @ qs) a =
     (case for_output env n ps a of
        (Inl e, lg) \<Rightarrow> (Inl e, lg)
      | (Inr a', lg) \<Rightarrow> (case for_output env n qs a' of (r, lg') \<Rightarrow> (r, lg @ lg')))"
proof (induction ps arbitrary: a)
  case Nil
  then show ?case by (simp split: prod.splits)
next
  case (Cons p ps)
  show ?case
    by (simp add: Cons.IH split: prod.splits sum.splits)
qed

lemma create_edge_missing:
  assumes "spec_edge_template ty = Some (relation, attr, gap)"
    and "map_of d attr = None"
  shows "create_edge env key (JObj d) name (JStr ty) = (Inl (KeyError (JStr attr)), [])"
  using assms
  by (auto simp: spec_edge_template_def create_edge_def edge_text_def and_then_def split: if_splits)

lemma for_output_r5:
  "for_output env0 (JStr ''Acme'') [JObj [(''ref'', JStr ''r5'')]] ([], []) = (Inr acc_r5, [])"
  by (simp add: eval_defs record5_def acc_r5_def)

lemma for_output_r1:
  "for_output env0 (JStr ''Acme'') [JObj [(''ref'', JStr ''r1'')]] ([], []) =
     (Inr acc_r1, [WarnUnknownType (JStr ''PARTNER'')])"
  by (simp add: eval_defs acc_r1_def)

text \<open>
  The buckets grow: a pair once filed stays in its bucket, each step files the pair under
  the key of its first character, and every bucket keeps holding only such pairs.
\<close>

lemma in_bucket_iff: "in_bucket r bk x \<longleftrightarrow> (\<exists>b. (bk, b) \<in> set r \<and> x \<in> set b)"
  by (force simp: in_bucket_def list_ex_iff)

lemma in_bucket_setdefault_new: "in_bucket (setdefault_append k v r) k v"
  by (induction r) (auto simp: in_bucket_def)

lemma in_bucket_setdefault_mono:
  "in_bucket r bk x \<Longrightarrow> in_bucket (setdefault_append k v r) bk x"
  by (induction r) (auto simp: in_bucket_def)

lemma buckets_ok_setdefault:
  "buckets_ok env r \<Longrightarrow> pair_ok env k v \<Longrightarrow> buckets_ok env (setdefault_append k v r)"
  by (induction r) (auto simp: buckets_ok_def)

lemma process_pair_results:
  assumes "process_pair env n (r, es) (k, v) = (Inr (r', es'), lg)"
  shows "r' = (case k of [] \<Rightarrow> r | c # cs \<Rightarrow> setdefault_append (first_char env c) (JObj [(k, v)]) r)"
  using assms
  by (cases k) (auto simp: Let_def split: json.splits option.splits if_splits prod.splits sum.splits)

lemma process_pair_ok:
  assumes "process_pair env n a p = (Inr a', lg)" and "buckets_ok env (fst a)"
  shows "buckets_ok env (fst a')"
proof -
  obtain r es where a: "a = (r, es)" by (cases a)
  obtain r' es' where a': "a' = (r', es')" by (cases a')
  obtain k v where p: "p = (k, v)" by (cases p)
  from process_pair_results [of env n r es k v r' es' lg] assms(1)
  have "r' = (case k of [] \<Rightarrow> r | c # cs \<Rightarrow> setdefault_append (first_char env c) (JObj [(k, v)]) r)"
    by (simp add: a a' p)
  with assms(2) show ?thesis
    by (cases k) (auto simp: a a' intro: buckets_ok_setdefault)
qed

lemma process_pair_mono:
  assumes "process_pair env n a p = (Inr a', lg)" and "in_bucket (fst a) bk x"
  shows "in_bucket (fst a') bk x"
proof -
  obtain r es where a: "a = (r, es)" by (cases a)
  obtain r' es' where a': "a' = (r', es')" by (cases a')
  obtain k v where p: "p = (k, v)" by (cases p)
  from process_pair_results [of env n r es k v r' es' lg] assms(1)
  have "r' = (case k of [] \<Rightarrow> r | c # cs \<Rightarrow> setdefault_append (first_char env c) (JObj [(k, v)]) r)"
    by (simp add: a a' p)
  with assms(2) show ?thesis
    by (cases k) (auto simp: a a' intro: in_bucket_setdefault_mono)
qed

lemma process_pair_adds:
  assumes "process_pair env n a (c # cs, v) = (Inr a', lg)"
  shows "in_bucket (fst a') (first_char env c) (JObj [(c # cs, v)])"
proof -
  obtain r es where a: "a = (r, es)" by (cases a)
  obtain r' es' where a': "a' = (r', es')" by (cases a')
  from process_pair_results [of env n r es "c # cs" v r' es' lg] assms(1)
  show ?thesis by (simp add: a a' in_bucket_setdefault_new)
qed

lemma for_pairs_ok:
  "for_pairs env n ps a = (Inr a', lg) \<Longrightarrow> buckets_ok env (fst a) \<Longrightarrow> buckets_ok env (fst a')"
proof (induction ps arbitrary: a lg)
  case Nil
  then show ?case by simp
next
  case (Cons p ps)
  from Cons.prems(1) obtain a1 lg1 lg2 where
    s1: "process_pair env n a p = (Inr a1, lg1)" and s2: "for_pairs env n ps a1 = (Inr a', lg2)"
    by (auto split: prod.splits sum.splits)
  from process_pair_ok [OF s1 Cons.prems(2)] Cons.IH [OF s2] show ?case by simp
qed

lemma for_pairs_mono:
  "for_pairs env n ps a = (Inr a', lg) \<Longrightarrow> in_bucket (fst a) bk x \<Longrightarrow> in_bucket (fst a') bk x"
proof (induction ps arbitrary: a lg)
  case Nil
  then show ?case by simp
next
  case (Cons p ps)
  from Cons.prems(1) obtain a1 lg1 lg2 where
    s1: "process_pair env n a p = (Inr a1, lg1)" and s2: "for_pairs env n ps a1 = (Inr a', lg2)"
    by (auto split: prod.splits sum.splits)
  from process_pair_mono [OF s1 Cons.prems(2)] Cons.IH [OF s2] show ?case by simp
qed

lemma for_pairs_adds:
  "for_pairs env n ps a = (Inr a', lg) \<Longrightarrow> (c # cs, v) \<in> set ps \<Longrightarrow>
   in_bucket (fst a') (first_char env c) (JObj [(c # cs, v)])"
proof (induction ps arbitrary: a lg)
  case Nil
  then show ?case by simp
next
  case (Cons p ps)
  from Cons.prems(1) obtain a1 lg1 lg2 where
    s1: "process_pair env n a p = (Inr a1, lg1)" and s2: "for_pairs env n ps a1 = (Inr a', lg2)"
    by (auto split: prod.splits sum.splits)
  show ?case
  proof (cases "p = (c # cs, v)")
    case True
    with s1 have "in_bucket (fst a1) (first_char env c) (JObj [(c # cs, v)])"
      by (simp add: process_pair_adds)
    with s2 show ?thesis by (rule for_pairs_mono)
  next
    case False
    with Cons.prems(2) have "(c # cs, v) \<in> set ps" by simp
    with s2 show ?thesis by (rule Cons.IH)
  qed
qed

lemma process_data_cases:
  assumes "process_data env n data a = (Inr a', lg)"
  shows "(\<exists>d. data = JObj d \<and> for_pairs env n d a = (Inr a', lg)) \<or> a' = a"
  using assms by (cases data) (auto split: option.splits if_splits)

lemma fetch_and_group_cases:
  assumes "fetch_and_group env n ident a = (Inr a', lg)"
  shows "(\<exists>stored s d. get_item env ident = Inr (Some stored) \<and> map_of stored ''data'' = Some (JStr s)
            \<and> json_loads env s = Some (JObj d) \<and> for_pairs env n d a = (Inr a', lg)) \<or> a' = a"
  using assms process_data_cases [of env n _ a a' lg]
  by (auto simp: fetch_and_group_def split: sum.splits option.splits json.splits)

lemma process_output_item_cases:
  assumes "process_output_item env n obj a = (Inr a', lg)"
  shows "(\<exists>ident stored s d. first_value obj = Inr ident \<and> get_item env ident = Inr (Some stored)
            \<and> map_of stored ''data'' = Some (JStr s)
            \<and> json_loads env s = Some (JObj d) \<and> for_pairs env n d a = (Inr a', lg)) \<or> a' = a"
proof (cases "first_value obj")
  case (Inl e)
  with assms show ?thesis by (simp add: process_output_item_def)
next
  case (Inr ident)
  obtain r lg0 where fg: "fetch_and_group env n ident a = (r, lg0)" by fastforce
  show ?thesis
  proof (cases r)
    case (Inl e)
    with assms Inr fg show ?thesis
      by (auto simp: process_output_item_def split: if_splits)
  next
    case ok: (Inr a0)
    with assms Inr fg have "a0 = a'" "lg0 = lg" by (auto simp: process_output_item_def)
    with fetch_and_group_cases [of env n ident a a' lg] fg ok Inr show ?thesis by auto
  qed
qed

lemma process_output_item_ok:
  "process_output_item env n obj a = (Inr a', lg) \<Longrightarrow> buckets_ok env (fst a) \<Longrightarrow> buckets_ok env (fst a')"
  using process_output_item_cases [of env n obj a a' lg] for_pairs_ok by blast

lemma process_output_item_mono:
  "process_output_item env n obj a = (Inr a', lg) \<Longrightarrow> in_bucket (fst a) bk x \<Longrightarrow> in_bucket (fst a') bk x"
  using process_output_item_cases [of env n obj a a' lg] for_pairs_mono by blast

lemma for_output_ok:
  "for_output env n objs a = (Inr a', lg) \<Longrightarrow> buckets_ok env (fst a) \<Longrightarrow> buckets_ok env (fst a')"
proof (induction objs arbitrary: a lg)
  case Nil
  then show ?case by simp
next
  case (Cons obj objs)
  from Cons.prems(1) obtain a1 lg1 lg2 where
    s1: "process_output_item env n obj a = (Inr a1, lg1)" and s2: "for_output env n objs a1 = (Inr a', lg2)"
    by (auto split: prod.splits sum.splits)
  from process_output_item_ok [OF s1 Cons.prems(2)] Cons.IH [OF s2] show ?case by simp
qed

lemma for_output_mono:
  "for_output env n objs a = (Inr a', lg) \<Longrightarrow> in_bucket (fst a) bk x \<Longrightarrow> in_bucket (fst a') bk x"
proof (induction objs arbitrary: a lg)
  case Nil
  then show ?case by simp
next
  case (Cons obj objs)
  from Cons.prems(1) obtain a1 lg1 lg2 where
    s1: "process_output_item env n obj a = (Inr a1, lg1)" and s2: "for_output env n objs a1 = (Inr a', lg2)"
    by (auto split: prod.splits sum.splits)
  from process_output_item_mono [OF s1 Cons.prems(2)] Cons.IH [OF s2] show ?case by simp
qed

lemma buckets_ok_empty: "buckets_ok env []"
  by (simp add: buckets_ok_def)

lemma pair_ok_nonempty: "pair_ok env bk x \<Longrightarrow> nonempty_key_pair x"
  by (induction env bk x rule: pair_ok.induct) simp_all

text \<open>
  The loop over a record raises neither ClientError nor JSONDecodeError: the handler of
  one reference catches these two only from the fetch and from \<^verbatim>\<open>json.loads\<close>, before
  buckets and edges are touched.
\<close>

lemma py_join_error: "py_join sep v = Inl e \<Longrightarrow> e = TypeError"
proof -
  have all: "all_strs xs = Inl e \<Longrightarrow> e = TypeError" for xs
    by (induction xs rule: all_strs.induct) (auto simp: and_then_def split: sum.splits)
  assume "py_join sep v = Inl e"
  then show ?thesis
    using all by (cases v) (auto simp: py_join_def and_then_def split: sum.splits)
qed

lemma edge_text_error:
  "edge_text env key mid data attr name = Inl e \<Longrightarrow> e = TypeError \<or> (\<exists>k. e = KeyError k)"
  using py_join_error
  by (cases data) (auto simp: edge_text_def and_then_def split: sum.splits option.splits)

lemma create_edge_error:
  "create_edge env key data name t = (Inl e, lg) \<Longrightarrow> e = TypeError \<or> (\<exists>k. e = KeyError k)"
proof -
  have m: "map_sum id Some x = Inl e \<Longrightarrow> x = Inl e" for x :: "error + string"
    by (cases x) auto
  assume "create_edge env key data name t = (Inl e, lg)"
  then show ?thesis
    using edge_text_error [of env key _ data _ name e]
    by (auto simp: create_edge_def split: if_splits dest!: m)
qed

lemma process_pair_error:
  assumes "process_pair env n a p = (Inl e, lg)"
  shows "e \<noteq> ClientError \<and> e \<noteq> JSONDecodeError"
proof -
  obtain r es where a: "a = (r, es)" by (cases a)
  obtain k v where p: "p = (k, v)" by (cases p)
  show ?thesis
  proof (cases k)
    case Nil
    with assms show ?thesis by (simp add: a p)
  next
    case (Cons c cs)
    with assms create_edge_error [of env "JStr k" v n] show ?thesis
      by (auto simp: a p Let_def split: json.splits option.splits if_splits prod.splits sum.splits)
  qed
qed

lemma for_pairs_error:
  "for_pairs env n ps a = (Inl e, lg) \<Longrightarrow> e \<noteq> ClientError \<and> e \<noteq> JSONDecodeError"
proof (induction ps arbitrary: a lg)
  case Nil
  then show ?case by simp
next
  case (Cons p ps)
  then show ?case
    using process_pair_error [of env n a p]
    by (auto split: prod.splits sum.splits)
qed

lemma process_output_item_resolved:
  assumes "first_value obj = Inr ident" "get_item env ident = Inr (Some stored)"
    "map_of stored ''data'' = Some (JStr s)" "json_loads env s = Some (JObj d)"
  shows "process_output_item env n obj a = for_pairs env n d a"
proof -
  have fg: "fetch_and_group env n ident a = for_pairs env n d a"
    using assms by (simp add: fetch_and_group_def)
  obtain r lg where fp: "for_pairs env n d a = (r, lg)" by fastforce
  show ?thesis
    using assms(1) fg fp for_pairs_error [of env n d a _ lg]
    by (cases r) (auto simp: process_output_item_def)
qed

lemma for_output_split:
  assumes "for_output env n (before @ obj # after) a = (Inr a', lg)"
  obtains a1 a2 lg1 lg2 lg3 where
    "for_output env n before a = (Inr a1, lg1)"
    "process_output_item env n obj a1 = (Inr a2, lg2)"
    "for_output env n after a2 = (Inr a', lg3)"
  using assms
  by (auto simp: for_output_append split: prod.splits sum.splits)

text \<open>Every item written is built from a bucket of the partition.\<close>

lemma store_results_step:
  assumes "store_results env n s es ident i (kb # rest) = (r, w, lg)"
    and "store_results env n s es ident (Suc i) rest = (r', w', lg')"
  shows "w = make_item env n s es ident i kb # w' \<or> w = w' \<or> w = []"
proof (cases "put_item env (make_item env n s es ident i kb)")
  case None
  with assms show ?thesis by (simp add: Let_def)
next
  case (Some e)
  with assms show ?thesis by (cases "e = ClientError") (simp_all add: Let_def)
qed

lemma store_results_written:
  "store_results env n s es ident i results = (r, w, lg) \<Longrightarrow> it \<in> set w \<Longrightarrow>
   \<exists>j kb. kb \<in> set results \<and> it = make_item env n s es ident j kb"
proof (induction results arbitrary: i r w lg)
  case Nil
  then show ?case by simp
next
  case (Cons kb rest)
  obtain r' w' lg' where rest: "store_results env n s es ident (Suc i) rest = (r', w', lg')"
    by (cases "store_results env n s es ident (Suc i) rest") auto
  from store_results_step [OF Cons.prems(1) rest] Cons.prems(2)
  have "it = make_item env n s es ident i kb \<or> it \<in> set w'"
    by auto
  then show ?case
  proof
    assume "it = make_item env n s es ident i kb"
    then have "kb \<in> set (kb # rest) \<and> it = make_item env n s es ident i kb" by simp
    then show ?thesis by blast
  next
    assume "it \<in> set w'"
    from Cons.IH [OF rest this] obtain j kb' where
      "kb' \<in> set rest" "it = make_item env n s es ident j kb'" by blast
    then have "kb' \<in> set (kb # rest) \<and> it = make_item env n s es ident j kb'" by simp
    then show ?thesis by blast
  qed
qed

lemma written_from_buckets:
  assumes "it \<in> set (written (lambda_handler env event))"
  shows "\<exists>summary name attrs objs results allEdges lg.
           map_of event ''Summary'' = Some summary
         \<and> main_entity_fields summary = Inr (name, attrs)
         \<and> for_output env name objs ([], []) = (Inr (results, allEdges), lg)
         \<and> (\<exists>processed ident calls. upsert_main_entity env name attrs allEdges = (Inr (ident, processed), calls)
              \<and> (\<exists>j kb. kb \<in> set results
                    \<and> it = make_item env name (summary_after summary processed) allEdges ident j kb))"
proof -
  from assms obtain summary out where
    ev: "map_of event ''Summary'' = Some summary" and
    run: "it \<in> set (written (run env summary out))"
    by (auto simp: lambda_handler_def missing_fields_def fatal_def
             split: sum.splits option.splits if_splits)
  from run obtain name attrs where mf: "main_entity_fields summary = Inr (name, attrs)"
    by (cases "main_entity_fields summary") (auto simp: run_def fatal_def)
  from run mf obtain objs where it: "py_iter out = Inr objs"
    by (cases "py_iter out") (auto simp: run_def fatal_def)
  obtain r lg where fo: "for_output env name objs ([], []) = (r, lg)" by fastforce
  from run mf it fo obtain results allEdges where r: "r = Inr (results, allEdges)"
    by (cases r) (auto simp: run_def fatal_def)
  obtain u calls where up: "upsert_main_entity env name attrs allEdges = (u, calls)" by fastforce
  from run mf it fo r up obtain ident processed where u: "u = Inr (ident, processed)"
    by (cases u) (auto simp: run_def)
  obtain r' w lg' where st: "store_results env name (summary_after summary processed) allEdges ident 0 results
      = (r', w, lg')"
    by (cases "store_results env name (summary_after summary processed) allEdges ident 0 results") auto
  from run mf it fo r up u st have "it \<in> set w" by (simp add: run_def)
  from store_results_written [OF st this] ev mf fo r up u show ?thesis by blast
qed

text \<open>After the loop over the references, an invocation depends on them only through the buckets and edges.\<close>

lemma run_depends_on_buckets:
  assumes "fst (for_output env n objs1 ([], [])) = fst (for_output env n objs2 ([], []))"
    and "main_entity_fields summary = Inr (n, attrs)"
  shows "ret (run env summary (JList objs1)) = ret (run env summary (JList objs2))
       \<and> written (run env summary (JList objs1)) = written (run env summary (JList objs2))
       \<and> graph_calls (run env summary (JList objs1)) = graph_calls (run env summary (JList objs2))"
proof -
  obtain r lg1 where f1: "for_output env n objs1 ([], []) = (r, lg1)" by fastforce
  with assms(1) obtain lg2 where f2: "for_output env n objs2 ([], []) = (r, lg2)"
    by (cases "for_output env n objs2 ([], [])") auto
  show ?thesis
  proof (cases r)
    case (Inl e)
    with f1 f2 assms(2) show ?thesis by (simp add: run_def fatal_def)
  next
    case (Inr a)
    obtain results allEdges where a: "a = (results, allEdges)" by (cases a)
    obtain u calls where up: "upsert_main_entity env n attrs allEdges = (u, calls)" by fastforce
    show ?thesis
    proof (cases u)
      case (Inl e)
      with f1 f2 assms(2) Inr a up show ?thesis by (simp add: run_def)
    next
      case ok: (Inr ip)
      obtain ident processed where ip: "ip = (ident, processed)" by (cases ip)
      obtain r' w lg' where st:
        "store_results env n (summary_after summary processed) allEdges ident 0 results = (r', w, lg')"
        by (cases "store_results env n (summary_after summary processed) allEdges ident 0 results") auto
      from f1 f2 assms(2) Inr a up ok ip st show ?thesis by (simp add: run_def)
    qed
  qed
qed

lemma outcome_event0_fields:
  "ret (lambda_handler env0 event0) = Inr [''u'', ''uu'']"
  "map data_field (written (lambda_handler env0 event0)) =
     [Dumps (JList (snd (fst acc_r1 ! 0))), Dumps (JList (snd (fst acc_r1 ! 1)))]"
  "map bucket_key (written (lambda_handler env0 event0)) = [''B'', ''#'']"
  by (simp_all add: eval_defs event0_def acc_r1_def)

lemma main_entity_fields_summary0:
  "main_entity_fields summary0 =
     Inr (JStr ''Acme'', JList [JObj [(''INDUSTRY'', JList [JStr ''tools'', JStr ''toys''])]])"
  by (simp add: summary0_def main_entity_fields_def and_then_def)

lemma run_r1: "ret (run env0 summary0 (JList [ref ''r1''])) = Inr [''u'', ''uu'']"
  by (simp add: eval_defs ref_def)

text \<open>Flattening leaves an attribute list as it is exactly when no value is a list.\<close>

lemma map_sum_Inr: "map_sum id f x = Inr y \<Longrightarrow> \<exists>z. x = Inr z \<and> y = f z"
  by (cases x) auto

lemma flatten_pairs_same:
  "flatten_pairs kvs = Inr kvs' \<Longrightarrow> \<not> list_ex (\<lambda>kv. is_list (snd kv)) kvs \<Longrightarrow> kvs' = kvs"
proof (induction kvs arbitrary: kvs')
  case Nil
  then show ?case by simp
next
  case (Cons kv kvs)
  obtain k v where kv: "kv = (k, v)" by (cases kv)
  from Cons.prems(2) have nl: "\<not> is_list v" and rest: "\<not> list_ex (\<lambda>kv. is_list (snd kv)) kvs"
    by (simp_all add: kv)
  from nl have v: "(case v of JList xs \<Rightarrow> map_sum id JStr (py_join '','' (JList xs)) | _ \<Rightarrow> Inr v) = Inr v"
    by (cases v) simp_all
  from Cons.prems(1) obtain r where r: "flatten_pairs kvs = Inr r" "kvs' = (k, v) # r"
    by (auto simp: kv v and_then_def split: sum.splits)
  from Cons.IH [OF r(1) rest] r(2) show ?case by (simp add: kv)
qed

lemma flatten_pairs_changed:
  "flatten_pairs kvs = Inr kvs' \<Longrightarrow> list_ex (\<lambda>kv. is_list (snd kv)) kvs \<Longrightarrow> kvs' \<noteq> kvs"
proof (induction kvs arbitrary: kvs')
  case Nil
  then show ?case by simp
next
  case (Cons kv kvs)
  obtain k v where kv: "kv = (k, v)" by (cases kv)
  from Cons.prems(1) obtain v' r where
    v': "(case v of JList xs \<Rightarrow> map_sum id JStr (py_join '','' (JList xs)) | _ \<Rightarrow> Inr v) = Inr v'" and
    r: "flatten_pairs kvs = Inr r" "kvs' = (k, v') # r"
    by (auto simp: kv and_then_def split: sum.splits)
  show ?case
  proof (cases "is_list v")
    case True
    then obtain xs where "v = JList xs" by (cases v) auto
    with v' have "v' \<noteq> v" by (auto dest!: map_sum_Inr)
    with r(2) show ?thesis by (simp add: kv)
  next
    case False
    with Cons.prems(2) have "list_ex (\<lambda>kv. is_list (snd kv)) kvs" by (simp add: kv)
    from Cons.IH [OF r(1) this] r(2) show ?thesis by (simp add: kv)
  qed
qed

lemma flatten_attribute_same:
  "flatten_attribute x = Inr x' \<Longrightarrow> \<not> has_list_value x \<Longrightarrow> x' = x"
  by (cases x) (auto dest!: map_sum_Inr flatten_pairs_same)

lemma flatten_attribute_changed:
  "flatten_attribute x = Inr x' \<Longrightarrow> has_list_value x \<Longrightarrow> x' \<noteq> x"
  by (cases x) (auto dest!: map_sum_Inr flatten_pairs_changed)

lemma flatten_all_same:
  "flatten_all xs = Inr xs' \<Longrightarrow> \<not> list_ex has_list_value xs \<Longrightarrow> xs' = xs"
proof (induction xs arbitrary: xs')
  case Nil
  then show ?case by simp
next
  case (Cons x xs)
  from Cons.prems(1) obtain x' r where
    x': "flatten_attribute x = Inr x'" and r: "flatten_all xs = Inr r" "xs' = x' # r"
    by (auto simp: and_then_def split: sum.splits)
  from Cons.prems(2) flatten_attribute_same [OF x'] Cons.IH [OF r(1)] r(2) show ?case by simp
qed

lemma flatten_all_changed:
  "flatten_all xs = Inr xs' \<Longrightarrow> list_ex has_list_value xs \<Longrightarrow> xs' \<noteq> xs"
proof (induction xs arbitrary: xs')
  case Nil
  then show ?case by simp
next
  case (Cons x xs)
  from Cons.prems(1) obtain x' r where
    x': "flatten_attribute x = Inr x'" and r: "flatten_all xs = Inr r" "xs' = x' # r"
    by (auto simp: and_then_def split: sum.splits)
  show ?case
  proof (cases "has_list_value x")
    case True
    from flatten_attribute_changed [OF x' True] r(2) show ?thesis by simp
  next
    case False
    with Cons.prems(2) have "list_ex has_list_value xs" by simp
    from Cons.IH [OF r(1) this] r(2) show ?thesis by simp
  qed
qed

lemma dict_set_same: "map_of m k = Some v \<Longrightarrow> dict_set k v m = m"
  by (induction m) (auto split: if_splits)

lemma map_of_dict_set: "map_of (dict_set k v m) k = Some v"
  by (induction m) auto

lemma main_entity_fields_shape:
  assumes "main_entity_fields summary = Inr (name, attrs)"
  obtains s m where "summary = JObj s" "map_of s ''MAIN_ENTITY'' = Some (JObj m)"
    "map_of m ''NAME'' = Some name" "map_of m ''ATTRIBUTES'' = Some attrs"
proof -
  from assms obtain s where s: "summary = JObj s"
    by (cases summary) (auto simp: main_entity_fields_def and_then_def)
  from assms s obtain me where me: "map_of s ''MAIN_ENTITY'' = Some me"
    by (auto simp: main_entity_fields_def and_then_def split: option.splits)
  from assms s me obtain m where m: "me = JObj m"
    by (cases me) (auto simp: main_entity_fields_def and_then_def)
  from assms s me m have "map_of m ''NAME'' = Some name" "map_of m ''ATTRIBUTES'' = Some attrs"
    by (auto simp: main_entity_fields_def and_then_def split: option.splits)
  with s me m that show ?thesis by blast
qed

lemma summary_after_same:
  assumes "main_entity_fields summary = Inr (name, attrs)"
    and "process_attributes attrs = Inr processed"
    and "\<not> flattening_changes attrs"
  shows "summary_after summary processed = summary"
proof -
  from assms(1) obtain s m where sh: "summary = JObj s" "map_of s ''MAIN_ENTITY'' = Some (JObj m)"
    "map_of m ''NAME'' = Some name" "map_of m ''ATTRIBUTES'' = Some attrs"
    by (rule main_entity_fields_shape)
  show ?thesis
  proof (cases "is_list attrs")
    case True
    then obtain as where as: "attrs = JList as" by (cases attrs) auto
    with assms(2,3) have "processed = as"
      by (auto simp: process_attributes_def and_then_def dest: flatten_all_same)
    with sh as show ?thesis
      by (simp add: summary_after_def dict_set_same)
  next
    case False
    with sh show ?thesis
      by (cases attrs) (simp_all add: summary_after_def)
  qed
qed

lemma summary_after_changed:
  assumes "main_entity_fields summary = Inr (name, attrs)"
    and "process_attributes attrs = Inr processed"
    and "flattening_changes attrs"
  shows "summary_after summary processed \<noteq> summary"
proof -
  from assms(1) obtain s m where sh: "summary = JObj s" "map_of s ''MAIN_ENTITY'' = Some (JObj m)"
    "map_of m ''NAME'' = Some name" "map_of m ''ATTRIBUTES'' = Some attrs"
    by (rule main_entity_fields_shape)
  from assms(3) obtain as where as: "attrs = JList as" "list_ex has_list_value as"
    by (cases attrs) auto
  with assms(2) have ne: "processed \<noteq> as"
    by (auto simp: process_attributes_def and_then_def dest: flatten_all_changed)
  have after: "summary_after summary processed =
      JObj (dict_set ''MAIN_ENTITY'' (JObj (dict_set ''ATTRIBUTES'' (JList processed) m)) s)"
    using sh as by (simp add: summary_after_def)
  show ?thesis
  proof
    assume "summary_after summary processed = summary"
    with after sh(1) have "dict_set ''MAIN_ENTITY'' (JObj (dict_set ''ATTRIBUTES'' (JList processed) m)) s = s"
      by simp
    then have "map_of s ''MAIN_ENTITY'' = Some (JObj (dict_set ''ATTRIBUTES'' (JList processed) m))"
      using map_of_dict_set [of "''MAIN_ENTITY''" _ s] by metis
    with sh(2) have "dict_set ''ATTRIBUTES'' (JList processed) m = m" by simp
    then have "map_of m ''ATTRIBUTES'' = Some (JList processed)"
      using map_of_dict_set [of "''ATTRIBUTES''" _ m] by metis
    with sh(4) as(1) ne show False by simp
  qed
qed

lemma upsert_processed:
  "upsert_main_entity env name attrs es = (Inr (ident, processed), calls) \<Longrightarrow>
   process_attributes attrs = Inr processed"
  by (auto simp: upsert_main_entity_def Let_def split: option.splits sum.splits)

text \<open>On well-formed data no step raises, and with writes that succeed every bucket is written.\<close>

lemma str_list_map: "str_list v \<Longrightarrow> \<exists>vs. v = Some (JList (map JStr vs))"
proof (induction v rule: str_list.induct)
  case (1 xs)
  have "list_all is_str xs \<Longrightarrow> \<exists>vs. xs = map JStr vs" for xs
  proof (induction xs)
    case Nil
    then show ?case by simp
  next
    case (Cons x xs)
    then obtain vs where "xs = map JStr vs" by auto
    moreover from Cons.prems obtain s where "x = JStr s" by (cases x) auto
    ultimately have "x # xs = map JStr (s # vs)" by simp
    then show ?case by (rule exI)
  qed
  with 1 show ?case by auto
qed simp_all

lemma create_edge_wf:
  assumes "wf_type d t" and "truthy t"
  shows "\<exists>r lg. create_edge env (JStr key) (JObj d) name t = (Inr r, lg)"
proof (cases "\<exists>ty. t = JStr ty")
  case True
  then obtain ty where t: "t = JStr ty" by blast
  show ?thesis
  proof (cases "spec_edge_template ty")
    case None
    then show ?thesis
      by (auto simp: t create_edge_def spec_edge_template_def split: if_splits)
  next
    case (Some tpl)
    obtain relation attr gap where tpl: "tpl = (relation, attr, gap)" by (cases tpl)
    from assms Some tpl have "str_list (map_of d attr)" by (simp add: wf_type_def t)
    then obtain vs where vs: "map_of d attr = Some (JList (map JStr vs))"
      using str_list_map by blast
    have "edge_text env (JStr key) mid (JObj d) attr name =
            Inr (key @ mid @ join_strs '','' vs @ '') '' @ fmt env name)" for mid
      by (simp add: edge_text_def and_then_def vs py_join_strs fmt_def)
    with Some tpl show ?thesis
      by (auto simp: t create_edge_def spec_edge_template_def split: if_splits)
  qed
next
  case False
  with assms have "hashable t" by (cases t) (auto simp: wf_type_def)
  with False show ?thesis
    by (cases t) (auto simp: create_edge_def)
qed

lemma process_pair_wf:
  assumes "fst kv = [] \<or> wf_descriptor (snd kv)"
  shows "\<exists>a' lg. process_pair env name a kv = (Inr a', lg)"
proof -
  obtain r es where a: "a = (r, es)" by (cases a)
  obtain k v where kv: "kv = (k, v)" by (cases kv)
  show ?thesis
  proof (cases k)
    case Nil
    then show ?thesis by (simp add: a kv)
  next
    case (Cons c cs)
    with assms kv obtain d where d: "v = JObj d" "wf_descriptor (JObj d)"
      by (cases v) auto
    show ?thesis
    proof (cases "map_of d ''TYPE''")
      case None
      with d Cons show ?thesis by (simp add: a kv Let_def)
    next
      case (Some t)
      show ?thesis
      proof (cases "truthy t")
        case False
        with d Cons Some show ?thesis by (simp add: a kv Let_def)
      next
        case True
        from d(2) Some have "wf_type d t" by simp
        from create_edge_wf [OF this True, of env k name]
        obtain x lg where "create_edge env (JStr k) (JObj d) name t = (Inr x, lg)" by blast
        with d Cons Some True show ?thesis
          by (cases x) (simp_all add: a kv Let_def)
      qed
    qed
  qed
qed

lemma for_pairs_wf:
  "wf_record d \<Longrightarrow> \<exists>a' lg. for_pairs env name d a = (Inr a', lg)"
proof (induction d arbitrary: a)
  case Nil
  then show ?case by simp
next
  case (Cons kv d)
  from Cons.prems have kv: "fst kv = [] \<or> wf_descriptor (snd kv)" and d: "wf_record d"
    by (simp_all add: wf_record_def)
  from process_pair_wf [OF kv, of env name a]
  obtain a1 lg1 where s1: "process_pair env name a kv = (Inr a1, lg1)" by blast
  from Cons.IH [OF d, of a1] obtain a2 lg2 where "for_pairs env name d a1 = (Inr a2, lg2)" by blast
  with s1 show ?case by simp
qed

lemma process_output_item_wf:
  assumes "reference_ok env obj"
  shows "\<exists>a' lg. process_output_item env name obj a = (Inr a', lg)"
proof -
  from assms obtain ident where fv: "first_value obj = Inr ident"
    by (cases "first_value obj") (auto simp: reference_ok_def)
  show ?thesis
  proof (cases "get_item env ident")
    case (Inl e)
    with assms fv have "e = ClientError" by (simp add: reference_ok_def)
    with Inl fv show ?thesis by (simp add: process_output_item_def fetch_and_group_def)
  next
    case (Inr found)
    show ?thesis
    proof (cases found)
      case None
      with Inr fv show ?thesis by (simp add: process_output_item_def fetch_and_group_def)
    next
      case (Some stored)
      with assms fv Inr obtain s where s: "map_of stored ''data'' = Some (JStr s)"
        by (auto simp: reference_ok_def split: option.splits json.splits)
      show ?thesis
      proof (cases "json_loads env s")
        case None
        with Inr Some fv s show ?thesis by (simp add: process_output_item_def fetch_and_group_def)
      next
        case loaded: (Some data)
        with assms fv Inr Some s obtain d where d: "data = JObj d" "wf_record d"
          by (auto simp: reference_ok_def split: json.splits)
        from for_pairs_wf [OF d(2), of env name a]
        obtain a' lg where "for_pairs env name d a = (Inr a', lg)" by blast
        with process_output_item_resolved [OF fv Inr [unfolded Some] s loaded [unfolded d(1)], of name a]
        show ?thesis by simp
      qed
    qed
  qed
qed

lemma for_output_wf:
  "list_all (reference_ok env) objs \<Longrightarrow> \<exists>a' lg. for_output env name objs a = (Inr a', lg)"
proof (induction objs arbitrary: a)
  case Nil
  then show ?case by simp
next
  case (Cons obj objs)
  from process_output_item_wf [of env obj name a] Cons.prems
  obtain a1 lg1 where s1: "process_output_item env name obj a = (Inr a1, lg1)" by auto
  from Cons.IH [of a1] Cons.prems
  obtain a2 lg2 where "for_output env name objs a1 = (Inr a2, lg2)" by auto
  with s1 show ?case by simp
qed

lemma flatten_pairs_wf:
  "list_all (\<lambda>kv. is_list (snd kv) \<longrightarrow> str_list (Some (snd kv))) kvs \<Longrightarrow> \<exists>r. flatten_pairs kvs = Inr r"
proof (induction kvs)
  case Nil
  then show ?case by simp
next
  case (Cons kv kvs)
  obtain k v where kv: "kv = (k, v)" by (cases kv)
  from Cons obtain r where r: "flatten_pairs kvs = Inr r" by auto
  have "\<exists>v'. (case v of JList xs \<Rightarrow> map_sum id JStr (py_join '','' (JList xs)) | _ \<Rightarrow> Inr v) = Inr v'"
  proof (cases "is_list v")
    case True
    with Cons.prems kv have "str_list (Some v)" by simp
    then obtain vs where "v = JList (map JStr vs)" using str_list_map by blast
    then show ?thesis by (simp add: py_join_strs)
  next
    case False
    then show ?thesis by (cases v) simp_all
  qed
  with r show ?case by (auto simp: kv and_then_def)
qed

lemma flatten_all_wf: "list_all wf_attribute as \<Longrightarrow> \<exists>r. flatten_all as = Inr r"
proof (induction as)
  case Nil
  then show ?case by simp
next
  case (Cons x xs)
  from Cons obtain r where r: "flatten_all xs = Inr r" by auto
  from Cons.prems obtain kvs where x: "x = JObj kvs" "wf_attribute (JObj kvs)" by (cases x) auto
  from flatten_pairs_wf [of kvs] x(2) obtain p where "flatten_pairs kvs = Inr p" by auto
  with r x(1) show ?case by (simp add: and_then_def)
qed

lemma process_attributes_wf: "wf_attributes attrs \<Longrightarrow> \<exists>r. process_attributes attrs = Inr r"
  by (cases attrs) (auto simp: process_attributes_def and_then_def dest: flatten_all_wf)

lemma store_results_all_written:
  assumes "\<And>it. put_item env it = None"
  shows "store_results env n s es ident i results =
           (Inr (map (\<lambda>j. uuid4 env j) [i ..< i + length results]),
            map (\<lambda>(j, kb). make_item env n s es ident j kb) (zip [i ..< i + length results] results),
            [])"
proof (induction results arbitrary: i)
  case Nil
  then show ?case by simp
next
  case (Cons kb rest)
  have up: "[i ..< i + length (kb # rest)] = i # [Suc i ..< Suc i + length rest]"
    by (subst upt_rec) simp
  show ?case
    unfolding up
    by (simp add: assms Cons.IH Let_def make_item_def)
qed

lemma upsert_ok:
  assumes "GraphConnect env = None" and "connection_close env = None"
    and "\<And>label n attrs edges. \<exists>ident. getOrCreateID env label n attrs edges = Inr ident"
    and "wf_attributes attributes"
  shows "\<exists>ident processed calls.
           upsert_main_entity env name attributes allEdges = (Inr (ident, processed), calls)"
proof -
  from process_attributes_wf [OF assms(4)] obtain processed where
    p: "process_attributes attributes = Inr processed" by blast
  from assms(3) obtain ident where
    "getOrCreateID env ''COMPANY'' name processed allEdges = Inr ident" by blast
  with assms(1,2) p show ?thesis
    by (simp add: upsert_main_entity_def Let_def)
qed

lemma written_item_ids:
  "map item_id (map (\<lambda>(j, kb). make_item env n s es ident j kb) (zip [i ..< i + length results] results))
     = map (\<lambda>j. uuid4 env j) [i ..< i + length results]"
proof -
  have ids: "map item_id (map (\<lambda>(j, kb). make_item env n s es ident j kb) zs) = map (\<lambda>j. uuid4 env j) (map fst zs)"
    for zs :: "(nat \<times> string \<times> json list) list"
    by (induction zs) (auto simp: make_item_def)
  have "map fst (zip [i ..< i + length results] results) = [i ..< i + length results]"
    by (rule map_fst_zip) simp
  with ids [of "zip [i ..< i + length results] results"] show ?thesis
    by (simp only:)
qed

lemma written_event0:
  "map summary_field (written (lambda_handler env0 event0)) = [Dumps summary0_flattened, Dumps summary0_flattened]"
  by (simp add: eval_defs event0_def summary0_flattened_def)

lemma item_B_written: "item_B \<in> set (written (lambda_handler env0 event0))"
  by (simp add: eval_defs event0_def item_B_def summary0_flattened_def)

subsection \<open>Edge derivation\<close>



subsection \<open>Fatal errors\<close>

text \<open>
  C1. If the graph upsert call that an invocation makes raises \<open>e\<close>, the invocation
  raises \<open>e\<close> and no Result Record is written, whatever buckets the resolution had
  computed. (In the witness two buckets and two edges had been computed.)
\<close>

theorem graph_upsert_failure_is_fatal:
  assumes "UpsertCall label name attrs edges \<in> set (graph_calls (lambda_handler env event))"
    and "getOrCreateID env label name attrs edges = Inl e"
  shows "ret (lambda_handler env event) = Inl e \<and> written (lambda_handler env event) = []"
proof -
  have run: "ret (run env s out) = Inl e \<and> written (run env s out) = []"
    if called: "UpsertCall label name attrs edges \<in> set (graph_calls (run env s out))" for s out
  proof (cases "main_entity_fields s")
    case (Inl a)
    with called show ?thesis by (simp add: run_def fatal_def)
  next
    case (Inr nm)
    obtain n at where nm: "nm = (n, at)" by (cases nm)
    show ?thesis
    proof (cases "py_iter out")
      case (Inl a)
      with called Inr nm show ?thesis by (simp add: run_def fatal_def)
    next
      case objs: (Inr objs)
      obtain r lg where fo: "for_output env n objs ([], []) = (r, lg)" by fastforce
      show ?thesis
      proof (cases r)
        case (Inl a)
        with called Inr nm objs fo show ?thesis by (simp add: run_def fatal_def)
      next
        case acc: (Inr acc)
        obtain results allEdges where a: "acc = (results, allEdges)" by (cases acc)
        obtain u calls where up: "upsert_main_entity env n at allEdges = (u, calls)" by fastforce
        show ?thesis
        proof (cases u)
          case (Inl a)
          with called Inr nm objs fo acc a up show ?thesis
            using upsert_calls [OF up _ assms(2)] by (simp add: run_def)
        next
          case ok: (Inr ip)
          have "u = Inl e"
            using called Inr nm objs fo acc a up ok upsert_calls [OF up _ assms(2)]
            by (auto simp: run_def split: prod.splits)
          with ok show ?thesis by simp
        qed
      qed
    qed
  qed
  show ?thesis
    using assms(1) run
    by (auto simp: lambda_handler_def missing_fields_def fatal_def
             split: sum.splits option.splits if_splits)
qed

theorem graph_upsert_failure_is_fatal_witness:
  "UpsertCall ''COMPANY'' (JStr ''Acme'') [JObj [(''INDUSTRY'', JStr ''tools,toys'')]]
       [''Bob is a director of (ROLE: CEO) Acme'',
        ''3M is a supplier of (RELATIONSHIP:tape,glue) Acme'']
     \<in> set (graph_calls (lambda_handler env_graph_down event0))
   \<and> getOrCreateID env_graph_down ''COMPANY'' (JStr ''Acme'')
       [JObj [(''INDUSTRY'', JStr ''tools,toys'')]]
       [''Bob is a director of (ROLE: CEO) Acme'',
        ''3M is a supplier of (RELATIONSHIP:tape,glue) Acme''] = Inl (OtherError ''graph down'')
   \<and> ret (lambda_handler env_graph_down event0) = Inl (OtherError ''graph down'')
   \<and> written (lambda_handler env_graph_down event0) = []"
proof -
  have called: "UpsertCall ''COMPANY'' (JStr ''Acme'') [JObj [(''INDUSTRY'', JStr ''tools,toys'')]]
       [''Bob is a director of (ROLE: CEO) Acme'',
        ''3M is a supplier of (RELATIONSHIP:tape,glue) Acme'']
     \<in> set (graph_calls (lambda_handler env_graph_down event0))"
    by (simp add: outcome_graph_down)
  have raises: "getOrCreateID env_graph_down ''COMPANY'' (JStr ''Acme'')
       [JObj [(''INDUSTRY'', JStr ''tools,toys'')]]
       [''Bob is a director of (ROLE: CEO) Acme'',
        ''3M is a supplier of (RELATIONSHIP:tape,glue) Acme''] = Inl (OtherError ''graph down'')"
    by (simp add: env_graph_down_def)
  from graph_upsert_failure_is_fatal [OF called raises] called raises show ?thesis
    by blast
qed



subsection \<open>Unrecognized and incomplete descriptors\<close>

text \<open>
  C8, as stated, fails. The claim: whenever TYPE is present and is not one of the four
  recognized values, edge derivation does not raise and a warning is logged. A TYPE
  that is the one-element list of DIRECTOR is present and is none of the four: line 159
  hashes it, \<open>create_edge\<close> raises TypeError and the invocation aborts. A TYPE that is
  the empty string is none of the four either: line 75 skips \<open>create_edge\<close> and no
  warning is logged.
\<close>

theorem unknown_type_counterexample:
  "map_of [(''TYPE'', JList [JStr ''DIRECTOR''])] ''TYPE'' = Some (JList [JStr ''DIRECTOR''])
   \<and> \<not> recognized (JList [JStr ''DIRECTOR''])
   \<and> create_edge env0 (JStr ''Zed'') (JObj [(''TYPE'', JList [JStr ''DIRECTOR''])]) (JStr ''Acme'')
         (JList [JStr ''DIRECTOR'']) = (Inl TypeError, [])
   \<and> lambda_handler env0 event_r6 =
         \<lparr> ret = Inl TypeError, graph_calls = [], written = [], logged = [ErrFatal TypeError] \<rparr>
   \<and> \<not> recognized (JStr '''')
   \<and> process_pair env0 (JStr ''Acme'') ([], []) (''Zed'', JObj [(''TYPE'', JStr '''')]) =
         (Inr ([(''Z'', [JObj [(''Zed'', JObj [(''TYPE'', JStr '''')])]])], []), [])"
  by (simp add: eval_defs recognized_def event_r6_def record6_def ref_def)

text \<open>
  C8, amended. For a descriptor whose TYPE is not one of the four recognized values and
  is not a non-empty list or dict, edge derivation does not raise: the pair goes to its
  bucket, the edge list is unchanged and the loop goes on with the remaining pairs of
  the record. The warning is logged when the TYPE is truthy (a non-empty string, a
  number other than zero, \<open>true\<close>), and not when it is falsy, where \<open>create_edge\<close> is
  not called. On a non-empty list or dict as TYPE the loop body raises TypeError.
\<close>

theorem unknown_type_no_edge:
  assumes "map_of d ''TYPE'' = Some t"
    and "\<not> recognized t"
    and "key = c # cs"
  shows "process_pair env name (results, allEdges) (key, JObj d) =
           (if truthy t \<and> \<not> hashable t then (Inl TypeError, [])
            else (Inr (setdefault_append (first_char env c) (JObj [(key, JObj d)]) results, allEdges),
                  if truthy t then [WarnUnknownType t] else []))
       \<and> (hashable t \<longrightarrow>
            create_edge env (JStr key) (JObj d) name t = (Inr None, [WarnUnknownType t]))
       \<and> (hashable t \<or> \<not> truthy t \<longrightarrow>
            for_pairs env name ((key, JObj d) # rest) (results, allEdges) =
              (case for_pairs env name rest
                      (setdefault_append (first_char env c) (JObj [(key, JObj d)]) results, allEdges) of
                 (r, lg) \<Rightarrow> (r, (if truthy t then [WarnUnknownType t] else []) @ lg)))"
proof -
  have ce: "create_edge env (JStr key) (JObj d) name t = (Inr None, [WarnUnknownType t])"
    if "hashable t"
    using that assms(2) by (simp add: create_edge_def recognized_def)
  have un: "create_edge env (JStr key) (JObj d) name t = (Inl TypeError, [])"
    if "\<not> hashable t"
    using that by (simp add: create_edge_def)
  have pp: "process_pair env name (results, allEdges) (key, JObj d) =
           (if truthy t \<and> \<not> hashable t then (Inl TypeError, [])
            else (Inr (setdefault_append (first_char env c) (JObj [(key, JObj d)]) results, allEdges),
                  if truthy t then [WarnUnknownType t] else []))"
  proof (cases "truthy t")
    case False
    with assms(1,3) show ?thesis by (simp add: Let_def)
  next
    case True
    show ?thesis
    proof (cases "hashable t")
      case h: True
      with True ce assms(1,3) show ?thesis by (simp add: Let_def)
    next
      case h: False
      with True un assms(1,3) show ?thesis by (simp add: Let_def)
    qed
  qed
  have fp: "for_pairs env name ((key, JObj d) # rest) (results, allEdges) =
              (case for_pairs env name rest
                      (setdefault_append (first_char env c) (JObj [(key, JObj d)]) results, allEdges) of
                 (r, lg) \<Rightarrow> (r, (if truthy t then [WarnUnknownType t] else []) @ lg))"
    if "hashable t \<or> \<not> truthy t"
    using that pp by (auto split: prod.splits)
  from pp ce fp show ?thesis by blast
qed

theorem unknown_type_no_edge_witness:
  "map_of [(''TYPE'', JStr ''PARTNER'')] ''TYPE'' = Some (JStr ''PARTNER'')
   \<and> \<not> recognized (JStr ''PARTNER'')
   \<and> create_edge env0 (JStr ''bolt'') (JObj [(''TYPE'', JStr ''PARTNER'')]) (JStr ''Acme'') (JStr ''PARTNER'')
       = (Inr None, [WarnUnknownType (JStr ''PARTNER'')])
   \<and> for_pairs env0 (JStr ''Acme'')
        [(''bolt'', JObj [(''TYPE'', JStr ''PARTNER'')]),
         (''Bob'', JObj [(''TYPE'', JStr ''DIRECTOR''), (''ROLE'', JList [JStr ''CEO''])])] ([], [])
       = (Inr ([(''B'', [JObj [(''bolt'', JObj [(''TYPE'', JStr ''PARTNER'')])],
                         JObj [(''Bob'', JObj [(''TYPE'', JStr ''DIRECTOR''), (''ROLE'', JList [JStr ''CEO''])])]])],
               [''Bob is a director of (ROLE: CEO) Acme'']),
          [WarnUnknownType (JStr ''PARTNER'')])"
proof -
  have h1: "map_of [(''TYPE'', JStr ''PARTNER'')] ''TYPE'' = Some (JStr ''PARTNER'')" by simp
  have h2: "\<not> recognized (JStr ''PARTNER'')" by (simp add: recognized_def)
  have h3: "''bolt'' = CHR ''b'' # ''olt''" by simp
  have h4: "hashable (JStr ''PARTNER'')" "truthy (JStr ''PARTNER'')" by simp_all
  from unknown_type_no_edge [OF h1 h2 h3, of env0 "JStr ''Acme''" "[]" "[]"
      "[(''Bob'', JObj [(''TYPE'', JStr ''DIRECTOR''), (''ROLE'', JList [JStr ''CEO''])])]"]
    h1 h2 h4
  show ?thesis
    by (simp add: eval_defs)
qed

text \<open>
  C10. A descriptor with one of the four recognized TYPE values and without the
  type-specific attribute makes \<open>create_edge\<close> raise KeyError on that attribute. The
  handler of one reference (ClientError, JSONDecodeError) does not catch it: whenever
  the handler reaches such a pair (the earlier references and the earlier pairs of
  the record having been processed), the invocation raises the KeyError, with no call
  to the graph library and nothing written.
\<close>

theorem missing_attribute_is_fatal:
  assumes recognized: "spec_edge_template ty = Some (relation, attr, gap)"
    and declared: "map_of d ''TYPE'' = Some (JStr ty)"
    and lacks: "map_of d attr = None"
    and key: "key \<noteq> []"
    and summ: "map_of event ''Summary'' = Some summary" "truthy summary"
              "main_entity_fields summary = Inr (name, attributes)"
    and outp: "map_of event ''output'' = Some (JList (before @ obj # after))"
    and earlier_refs: "for_output env name before ([], []) = (Inr a1, lg1)"
    and resolves: "first_value obj = Inr ident" "get_item env ident = Inr (Some stored)"
                  "map_of stored ''data'' = Some (JStr s)"
                  "json_loads env s = Some (JObj (dbefore @ (key, JObj d) # dafter))"
    and earlier_pairs: "for_pairs env name dbefore a1 = (Inr a2, lg2)"
  shows "create_edge env (JStr key) (JObj d) name (JStr ty) = (Inl (KeyError (JStr attr)), [])
       \<and> process_output_item env name obj a1 = (Inl (KeyError (JStr attr)), lg2)
       \<and> lambda_handler env event =
           \<lparr> ret = Inl (KeyError (JStr attr)), graph_calls = [], written = [],
             logged = lg1 @ lg2 @ [ErrFatal (KeyError (JStr attr))] \<rparr>"
proof -
  have ce: "create_edge env (JStr key) (JObj d) name (JStr ty) = (Inl (KeyError (JStr attr)), [])"
    by (rule create_edge_missing [OF recognized lacks])
  have ty: "ty \<noteq> []"
    using recognized by (auto simp: spec_edge_template_def)
  obtain c cs where k: "key = c # cs" using key by (cases key) auto
  obtain results allEdges where a2: "a2 = (results, allEdges)" by (cases a2)
  have pp: "process_pair env name a2 (key, JObj d) = (Inl (KeyError (JStr attr)), [])"
    using ce declared ty by (simp add: k a2 Let_def)
  have fp: "for_pairs env name (dbefore @ (key, JObj d) # dafter) a1 = (Inl (KeyError (JStr attr)), lg2)"
    using earlier_pairs pp by (simp add: for_pairs_append)
  have fg: "fetch_and_group env name ident a1 = (Inl (KeyError (JStr attr)), lg2)"
    using resolves fp by (simp add: fetch_and_group_def)
  have po: "process_output_item env name obj a1 = (Inl (KeyError (JStr attr)), lg2)"
    using resolves(1) fg by (simp add: process_output_item_def)
  have fo: "for_output env name (before @ obj # after) ([], []) = (Inl (KeyError (JStr attr)), lg1 @ lg2)"
    using earlier_refs po by (simp add: for_output_append)
  have "lambda_handler env event = fatal (KeyError (JStr attr)) (lg1 @ lg2)"
    using summ outp fo by (simp add: lambda_handler_def run_def)
  then show ?thesis using ce po by (simp add: fatal_def)
qed

theorem missing_attribute_is_fatal_witness:
  "create_edge env0 (JStr ''Xcorp'') (JObj [(''TYPE'', JStr ''CUSTOMER'')]) (JStr ''Acme'') (JStr ''CUSTOMER'')
     = (Inl (KeyError (JStr ''PRODUCTS_USED'')), [])
   \<and> process_output_item env0 (JStr ''Acme'') (JObj [(''ref'', JStr ''r2'')]) acc_r1
     = (Inl (KeyError (JStr ''PRODUCTS_USED'')), [])
   \<and> lambda_handler env0 event_r1_r2 =
       \<lparr> ret = Inl (KeyError (JStr ''PRODUCTS_USED'')), graph_calls = [], written = [],
         logged = [WarnUnknownType (JStr ''PARTNER''), ErrFatal (KeyError (JStr ''PRODUCTS_USED''))] \<rparr>"
proof -
  have h1: "spec_edge_template ''CUSTOMER'' = Some (''customer'', ''PRODUCTS_USED'', '''')"
    by (simp add: spec_edge_template_def)
  have h2: "map_of [(''TYPE'', JStr ''CUSTOMER'')] ''TYPE'' = Some (JStr ''CUSTOMER'')" by simp
  have h3: "map_of [(''TYPE'', JStr ''CUSTOMER'')] ''PRODUCTS_USED'' = None" by simp
  have h4: "''Xcorp'' \<noteq> []" by simp
  have h5: "map_of event_r1_r2 ''Summary'' = Some summary0" by (simp add: event_r1_r2_def)
  have h6: "truthy summary0" by (simp add: summary0_def)
  have h7: "main_entity_fields summary0 =
              Inr (JStr ''Acme'', JList [JObj [(''INDUSTRY'', JList [JStr ''tools'', JStr ''toys''])]])"
    by (simp add: summary0_def main_entity_fields_def and_then_def)
  have h8: "map_of event_r1_r2 ''output'' =
              Some (JList ([JObj [(''ref'', JStr ''r1'')]] @ JObj [(''ref'', JStr ''r2'')] # []))"
    by (simp add: event_r1_r2_def)
  have h9: "first_value (JObj [(''ref'', JStr ''r2'')]) = Inr (JStr ''r2'')" by simp
  have h10: "get_item env0 (JStr ''r2'') = Inr (Some [(''id'', JStr ''r2''), (''data'', JStr ''d2'')])"
    by (simp add: env0_def)
  have h11: "map_of [(''id'', JStr ''r2''), (''data'', JStr ''d2'')] ''data'' = Some (JStr ''d2'')"
    by simp
  have h12: "json_loads env0 ''d2'' =
               Some (JObj ([] @ (''Xcorp'', JObj [(''TYPE'', JStr ''CUSTOMER'')]) # []))"
    by (simp add: env0_def record2_def)
  have h13: "for_pairs env0 (JStr ''Acme'') [] acc_r1 = (Inr acc_r1, [])" by simp
  from missing_attribute_is_fatal [OF h1 h2 h3 h4 h5 h6 h7 h8 for_output_r1 h9 h10 h11 h12 h13]
  show ?thesis by simp
qed

subsection \<open>Partitioning into buckets\<close>

text \<open>
  C7. When the loop over the references completes, every pair of a resolved record whose
  entity key is not empty stands in the bucket whose key is the upper case of the first
  character of the entity key (what \<^verbatim>\<open>str.upper\<close> gives) when that character is
  alphabetic (for \<^verbatim>\<open>str.isalpha\<close>), and \<open>#\<close> otherwise, and in no bucket of another key.
  In the witness the entity key 3M is filed under \<open>#\<close>, a name that begins with U+00C9
  under U+00C9, and one that begins with the sharp s under \<^verbatim>\<open>SS\<close>.
\<close>

theorem bucket_key_is_first_letter:
  assumes "for_output env name (before @ obj # after) ([], []) = (Inr (results, allEdges), lg)"
    and "first_value obj = Inr ident" and "get_item env ident = Inr (Some stored)"
    and "map_of stored ''data'' = Some (JStr s)" and "json_loads env s = Some (JObj d)"
    and "(c # cs, v) \<in> set d"
  shows "in_bucket results (if str_isalpha env c then str_upper env c else ''#'') (JObj [(c # cs, v)])
       \<and> (\<forall>bk. in_bucket results bk (JObj [(c # cs, v)])
              \<longrightarrow> bk = (if str_isalpha env c then str_upper env c else ''#''))"
proof -
  from assms(1) obtain a1 a2 lg1 lg2 lg3 where
    s1: "for_output env name before ([], []) = (Inr a1, lg1)" and
    s2: "process_output_item env name obj a1 = (Inr a2, lg2)" and
    s3: "for_output env name after a2 = (Inr (results, allEdges), lg3)"
    by (rule for_output_split)
  from s2 have "for_pairs env name d a1 = (Inr a2, lg2)"
    by (simp add: process_output_item_resolved [OF assms(2-5)])
  then have "in_bucket (fst a2) (first_char env c) (JObj [(c # cs, v)])"
    using assms(6) by (rule for_pairs_adds)
  with s3 have there: "in_bucket results (first_char env c) (JObj [(c # cs, v)])"
    using for_output_mono by fastforce
  have ok: "buckets_ok env results"
    using for_output_ok [OF assms(1)] by (simp add: buckets_ok_empty)
  have only: "bk = first_char env c" if "in_bucket results bk (JObj [(c # cs, v)])" for bk
  proof -
    from that obtain b where b: "(bk, b) \<in> set results" "JObj [(c # cs, v)] \<in> set b"
      by (auto simp: in_bucket_iff)
    with ok have "pair_ok env bk (JObj [(c # cs, v)])"
      by (force simp: buckets_ok_def list_all_iff)
    then show ?thesis by simp
  qed
  from there only show ?thesis
    unfolding first_char_def by blast
qed

theorem bucket_key_is_first_letter_witness:
  "in_bucket (fst acc_r1) ''#''
     (JObj [(''3M'', JObj [(''TYPE'', JStr ''SUPPLIER''),
                          (''RELATIONSHIP'', JList [JStr ''tape'', JStr ''glue''])])])
   \<and> \<not> in_bucket (fst acc_r1) ''B''
       (JObj [(''3M'', JObj [(''TYPE'', JStr ''SUPPLIER''),
                            (''RELATIONSHIP'', JList [JStr ''tape'', JStr ''glue''])])])
   \<and> in_bucket (fst acc_r5) [CHR 0xC9] (JObj [(CHR 0xC9 # ''mile'', JObj [])])
   \<and> \<not> in_bucket (fst acc_r5) ''#'' (JObj [(CHR 0xC9 # ''mile'', JObj [])])
   \<and> in_bucket (fst acc_r5) ''SS'' (JObj [(CHR 0xDF # ''eta'', JObj [])])"
proof -
  have h1: "for_output env0 (JStr ''Acme'') ([] @ ref ''r1'' # []) ([], []) =
              (Inr (fst acc_r1, snd acc_r1), [WarnUnknownType (JStr ''PARTNER'')])"
    using for_output_r1 by (simp add: ref_def)
  have h2: "first_value (ref ''r1'') = Inr (JStr ''r1'')" by (simp add: ref_def)
  have h3: "get_item env0 (JStr ''r1'') = Inr (Some [(''id'', JStr ''r1''), (''data'', JStr ''d1'')])"
    by (simp add: env0_def)
  have h4: "map_of [(''id'', JStr ''r1''), (''data'', JStr ''d1'')] ''data'' = Some (JStr ''d1'')"
    by simp
  have h5: "json_loads env0 ''d1'' = Some (JObj
     [(''Bob'', JObj [(''TYPE'', JStr ''DIRECTOR''), (''ROLE'', JList [JStr ''CEO''])]),
      (''3M'', JObj [(''TYPE'', JStr ''SUPPLIER''), (''RELATIONSHIP'', JList [JStr ''tape'', JStr ''glue''])]),
      ('''', JObj [(''TYPE'', JStr ''CUSTOMER'')]),
      (''bolt'', JObj [(''TYPE'', JStr ''PARTNER'')])])"
    by (simp add: env0_def record1_def)
  have h6: "(CHR ''3'' # ''M'', JObj [(''TYPE'', JStr ''SUPPLIER''),
                          (''RELATIONSHIP'', JList [JStr ''tape'', JStr ''glue''])]) \<in> set
     [(''Bob'', JObj [(''TYPE'', JStr ''DIRECTOR''), (''ROLE'', JList [JStr ''CEO''])]),
      (''3M'', JObj [(''TYPE'', JStr ''SUPPLIER''), (''RELATIONSHIP'', JList [JStr ''tape'', JStr ''glue''])]),
      ('''', JObj [(''TYPE'', JStr ''CUSTOMER'')]),
      (''bolt'', JObj [(''TYPE'', JStr ''PARTNER'')])]"
    by simp
  have digit: "\<not> str_isalpha env0 CHR ''3''" by (simp add: env0_def)
  have g1: "for_output env0 (JStr ''Acme'') ([] @ ref ''r5'' # []) ([], []) =
              (Inr (fst acc_r5, snd acc_r5), [])"
    using for_output_r5 by (simp add: ref_def)
  have g2: "first_value (ref ''r5'') = Inr (JStr ''r5'')" by (simp add: ref_def)
  have g3: "get_item env0 (JStr ''r5'') = Inr (Some [(''id'', JStr ''r5''), (''data'', JStr ''d5'')])"
    by (simp add: env0_def)
  have g4: "map_of [(''id'', JStr ''r5''), (''data'', JStr ''d5'')] ''data'' = Some (JStr ''d5'')"
    by simp
  have g5: "json_loads env0 ''d5'' =
              Some (JObj [(CHR 0xC9 # ''mile'', JObj []), (CHR 0xDF # ''eta'', JObj [])])"
    by (simp add: env0_def record5_def)
  have g6: "(CHR 0xC9 # ''mile'', JObj []) \<in> set [(CHR 0xC9 # ''mile'', JObj []), (CHR 0xDF # ''eta'', JObj [])]"
    by simp
  have g7: "(CHR 0xDF # ''eta'', JObj []) \<in> set [(CHR 0xC9 # ''mile'', JObj []), (CHR 0xDF # ''eta'', JObj [])]"
    by simp
  have tables: "str_isalpha env0 (CHR 0xC9)" "str_upper env0 (CHR 0xC9) = [CHR 0xC9]"
    "str_isalpha env0 (CHR 0xDF)" "str_upper env0 (CHR 0xDF) = ''SS''"
    by (simp_all add: env0_def)
  from bucket_key_is_first_letter [OF h1 h2 h3 h4 h5 h6] digit
  have a: "in_bucket (fst acc_r1) ''#''
     (JObj [(''3M'', JObj [(''TYPE'', JStr ''SUPPLIER''),
                          (''RELATIONSHIP'', JList [JStr ''tape'', JStr ''glue''])])])
   \<and> \<not> in_bucket (fst acc_r1) ''B''
       (JObj [(''3M'', JObj [(''TYPE'', JStr ''SUPPLIER''),
                            (''RELATIONSHIP'', JList [JStr ''tape'', JStr ''glue''])])])"
    by auto
  from bucket_key_is_first_letter [OF g1 g2 g3 g4 g5 g6] tables
  have b: "in_bucket (fst acc_r5) [CHR 0xC9] (JObj [(CHR 0xC9 # ''mile'', JObj [])])
   \<and> \<not> in_bucket (fst acc_r5) ''#'' (JObj [(CHR 0xC9 # ''mile'', JObj [])])"
    by auto
  from bucket_key_is_first_letter [OF g1 g2 g3 g4 g5 g7] tables
  have c: "in_bucket (fst acc_r5) ''SS'' (JObj [(CHR 0xDF # ''eta'', JObj [])])"
    by auto
  from a b c show ?thesis by blast
qed

text \<open>
  C9. Every bucket the loop over the references produces, and so the bucket serialised
  into every Result Record the handler writes, holds only one-pair dicts whose entity key
  is not empty. (The record of the witness has a pair with an empty key.)
\<close>

theorem buckets_hold_no_empty_key:
  "(for_output env name objs ([], []) = (Inr (results, allEdges), lg)
      \<longrightarrow> list_all (\<lambda>kb. list_all nonempty_key_pair (snd kb)) results)
   \<and> list_all (\<lambda>it. \<exists>bucket. data_field it = Dumps (JList bucket) \<and> list_all nonempty_key_pair bucket)
        (written (lambda_handler env event))"
proof -
  have loop: "list_all (\<lambda>kb. list_all nonempty_key_pair (snd kb)) r"
    if "for_output env n os ([], []) = (Inr (r, es), l)" for n os r es l
  proof -
    have "buckets_ok env r"
      using for_output_ok [OF that] by (simp add: buckets_ok_empty)
    then show ?thesis
      by (auto simp: buckets_ok_def list_all_iff intro: pair_ok_nonempty)
  qed
  have items: "\<exists>bucket. data_field it = Dumps (JList bucket) \<and> list_all nonempty_key_pair bucket"
    if "it \<in> set (written (lambda_handler env event))" for it
  proof -
    from written_from_buckets [OF that] obtain summary n attrs os r es l processed ident j kb where
      fo: "for_output env n os ([], []) = (Inr (r, es), l)" and kb: "kb \<in> set r" and
      it: "it = make_item env n (summary_after summary processed) es ident j kb"
      by blast
    from loop [OF fo] kb have "list_all nonempty_key_pair (snd kb)"
      by (simp add: list_all_iff)
    then show ?thesis by (simp add: it make_item_def)
  qed
  from loop items show ?thesis by (auto simp: list_all_iff)
qed

theorem buckets_hold_no_empty_key_witness:
  "for_output env0 (JStr ''Acme'') [ref ''r1''] ([], []) =
     (Inr (fst acc_r1, snd acc_r1), [WarnUnknownType (JStr ''PARTNER'')])
   \<and> list_all (\<lambda>kb. list_all nonempty_key_pair (snd kb)) (fst acc_r1)
   \<and> length (written (lambda_handler env0 event0)) = 2
   \<and> list_all (\<lambda>it. \<exists>bucket. data_field it = Dumps (JList bucket) \<and> list_all nonempty_key_pair bucket)
        (written (lambda_handler env0 event0))"
proof -
  have h: "for_output env0 (JStr ''Acme'') [ref ''r1''] ([], []) =
     (Inr (fst acc_r1, snd acc_r1), [WarnUnknownType (JStr ''PARTNER'')])"
    using for_output_r1 by (simp add: ref_def)
  have n: "length (written (lambda_handler env0 event0)) = 2"
    using arg_cong [OF outcome_event0_fields(3), of length] by simp
  from buckets_hold_no_empty_key [of env0 "JStr ''Acme''" "[ref ''r1'']" "fst acc_r1" "snd acc_r1"
      "[WarnUnknownType (JStr ''PARTNER'')]" event0] h n
  show ?thesis by blast
qed

subsection \<open>References that do not resolve\<close>

text \<open>
  C5. A reference whose identifier has no stored record, or whose stored payload does
  not deserialise, is skipped: its iteration logs one entry and leaves buckets and edges
  as they were, the loop gives what it gives on the batch without that reference, and
  so does the rest of the invocation (what it returns, writes and sends to the graph).
\<close>

theorem unresolved_reference_is_skipped:
  assumes "first_value obj = Inr ident"
    and "get_item env ident = Inr None
         \<or> (\<exists>stored s. get_item env ident = Inr (Some stored)
               \<and> map_of stored ''data'' = Some (JStr s) \<and> json_loads env s = None)"
  shows "process_output_item env name obj a =
           (Inr a, [if get_item env ident = Inr None then WarnNoItem ident
                    else ErrJSONDecode ident JSONDecodeError])
       \<and> fst (for_output env name (before @ obj # after) a) = fst (for_output env name (before @ after) a)
       \<and> (main_entity_fields summary = Inr (name, attributes) \<longrightarrow>
            ret (run env summary (JList (before @ obj # after))) = ret (run env summary (JList (before @ after)))
          \<and> written (run env summary (JList (before @ obj # after))) = written (run env summary (JList (before @ after)))
          \<and> graph_calls (run env summary (JList (before @ obj # after)))
              = graph_calls (run env summary (JList (before @ after))))"
proof -
  have skip: "process_output_item env name obj a' =
           (Inr a', [if get_item env ident = Inr None then WarnNoItem ident
                    else ErrJSONDecode ident JSONDecodeError])" for a'
    using assms by (auto simp: process_output_item_def fetch_and_group_def)
  have same: "fst (for_output env name (before @ obj # after) a') = fst (for_output env name (before @ after) a')"
    for a'
  proof -
    obtain r lg where b: "for_output env name before a' = (r, lg)" by fastforce
    show ?thesis
    proof (cases r)
      case (Inl e)
      with b show ?thesis by (simp add: for_output_append)
    next
      case (Inr a1)
      obtain r2 lg2 where af: "for_output env name after a1 = (r2, lg2)" by fastforce
      from b Inr af skip [of a1] show ?thesis by (simp add: for_output_append)
    qed
  qed
  from skip [of a] same [of a] run_depends_on_buckets [OF same [of "([], [])"]]
  show ?thesis by blast
qed

theorem unresolved_reference_is_skipped_witness:
  "process_output_item env0 (JStr ''Acme'') (ref ''r4'') ([], []) = (Inr ([], []), [WarnNoItem (JStr ''r4'')])
   \<and> process_output_item env0 (JStr ''Acme'') (ref ''r3'') ([], []) =
        (Inr ([], []), [ErrJSONDecode (JStr ''r3'') JSONDecodeError])
   \<and> fst (for_output env0 (JStr ''Acme'') [ref ''r4'', ref ''r3'', ref ''r1''] ([], [])) = Inr acc_r1
   \<and> ret (run env0 summary0 (JList [ref ''r4'', ref ''r3'', ref ''r1''])) = Inr [''u'', ''uu'']"
proof -
  have v4: "first_value (ref ''r4'') = Inr (JStr ''r4'')" by (simp add: ref_def)
  have g4: "get_item env0 (JStr ''r4'') = Inr None" by (simp add: env0_def)
  have v3: "first_value (ref ''r3'') = Inr (JStr ''r3'')" by (simp add: ref_def)
  have g3: "get_item env0 (JStr ''r3'') = Inr None
         \<or> (\<exists>stored s. get_item env0 (JStr ''r3'') = Inr (Some stored)
               \<and> map_of stored ''data'' = Some (JStr s) \<and> json_loads env0 s = None)"
    by (simp add: env0_def)
  have n3: "get_item env0 (JStr ''r3'') \<noteq> Inr None" by (simp add: env0_def)
  note not_found = unresolved_reference_is_skipped [OF v4 disjI1 [OF g4],
      of "JStr ''Acme''" "([], [])" "[]" "[ref ''r3'', ref ''r1'']" summary0
         "JList [JObj [(''INDUSTRY'', JList [JStr ''tools'', JStr ''toys''])]]"]
  note bad_payload = unresolved_reference_is_skipped [OF v3 g3,
      of "JStr ''Acme''" "([], [])" "[]" "[ref ''r1'']" summary0
         "JList [JObj [(''INDUSTRY'', JList [JStr ''tools'', JStr ''toys''])]]"]
  from not_found bad_payload g4 n3 main_entity_fields_summary0 run_r1 for_output_r1
  show ?thesis by (simp add: ref_def)
qed

subsection \<open>The summary field of a Result Record\<close>

text \<open>
  C4, as stated, fails. The claim: the handler only reads the batch, and the summary
  serialised into a Result Record is the Summary as received. In the example the
  Summary has the attribute INDUSTRY with the list value tools, toys, and both Result
  Records carry the Summary with INDUSTRY flattened to the string \<^verbatim>\<open>tools,toys\<close>.
\<close>

theorem summary_field_original_counterexample:
  "map_of event0 ''Summary'' = Some summary0
   \<and> map summary_field (written (lambda_handler env0 event0)) =
        [Dumps summary0_flattened, Dumps summary0_flattened]
   \<and> Dumps summary0_flattened \<noteq> Dumps summary0"
  using written_event0 by (simp add: event0_def summary0_def summary0_flattened_def)

text \<open>
  C4, amended. The flattening step writes into the attribute dicts of the received
  Summary, and the summary serialised into every Result Record is the Summary it leaves:
  the received one with each list-valued attribute of MAIN_ENTITY.ATTRIBUTES replaced by
  its comma-joined string. It is the Summary as received exactly when no attribute has
  a list as its value.
\<close>

theorem summary_field_is_flattened_summary:
  assumes "it \<in> set (written (lambda_handler env event))"
  shows "\<exists>summary name attributes processed.
           map_of event ''Summary'' = Some summary
         \<and> main_entity_fields summary = Inr (name, attributes)
         \<and> process_attributes attributes = Inr processed
         \<and> summary_field it = Dumps (summary_after summary processed)
         \<and> (summary_field it = Dumps summary \<longleftrightarrow> \<not> flattening_changes attributes)"
proof -
  from written_from_buckets [OF assms] obtain summary name attrs es processed ident calls j kb where
    ev: "map_of event ''Summary'' = Some summary" and
    mf: "main_entity_fields summary = Inr (name, attrs)" and
    up: "upsert_main_entity env name attrs es = (Inr (ident, processed), calls)" and
    it: "it = make_item env name (summary_after summary processed) es ident j kb"
    by blast
  have pa: "process_attributes attrs = Inr processed"
    using up by (rule upsert_processed)
  have sf: "summary_field it = Dumps (summary_after summary processed)"
    by (simp add: it make_item_def)
  have "summary_after summary processed = summary \<longleftrightarrow> \<not> flattening_changes attrs"
    using summary_after_same [OF mf pa] summary_after_changed [OF mf pa] by blast
  with ev mf pa sf show ?thesis by auto
qed

theorem summary_field_is_flattened_summary_witness:
  "item_B \<in> set (written (lambda_handler env0 event0))
   \<and> map_of event0 ''Summary'' = Some summary0
   \<and> summary_field item_B = Dumps (summary_after summary0 [JObj [(''INDUSTRY'', JStr ''tools,toys'')]])
   \<and> summary_field item_B \<noteq> Dumps summary0"
proof -
  from summary_field_is_flattened_summary [OF item_B_written]
  obtain summary name attributes processed where
    a: "map_of event0 ''Summary'' = Some summary" and
    b: "main_entity_fields summary = Inr (name, attributes)" and
    c: "process_attributes attributes = Inr processed" and
    d: "summary_field item_B = Dumps (summary_after summary processed)" and
    e: "summary_field item_B = Dumps summary \<longleftrightarrow> \<not> flattening_changes attributes"
    by blast
  from a have s: "summary = summary0" by (simp add: event0_def)
  with b have at: "attributes = JList [JObj [(''INDUSTRY'', JList [JStr ''tools'', JStr ''toys''])]]"
    by (simp add: main_entity_fields_summary0)
  with c have p: "processed = [JObj [(''INDUSTRY'', JStr ''tools,toys'')]]"
    by (simp add: process_attributes_def and_then_def py_join_def)
  from at have "flattening_changes attributes" by simp
  with e s have "summary_field item_B \<noteq> Dumps summary0" by simp
  with item_B_written a d s p show ?thesis by simp
qed

subsection \<open>The identifiers returned\<close>

text \<open>
  C6, as stated, fails. The claim: a non-empty batch whose references all resolve and
  whose writes succeed returns a sequence of identifiers. In the environment of the
  examples every write succeeds and the graph library answers. The first batch has the
  one reference \<open>r1\<close>, which resolves, and a Summary with the attribute YEARS holding
  the numbers 1999 and 2000: the join of line 100 raises TypeError. The second batch
  has the references \<open>r1\<close> and \<open>r2\<close>, which both resolve; \<open>r2\<close> holds a CUSTOMER
  without PRODUCTS_USED and the invocation raises KeyError. Neither writes a record.
\<close>

theorem identifiers_match_buckets_counterexample:
  "map_of event_years ''output'' = Some (JList [ref ''r1''])
   \<and> get_item env0 (JStr ''r1'') = Inr (Some [(''id'', JStr ''r1''), (''data'', JStr ''d1'')])
   \<and> json_loads env0 ''d1'' = Some record1
   \<and> ret (lambda_handler env0 event_years) = Inl TypeError
   \<and> written (lambda_handler env0 event_years) = []
   \<and> map_of event_r1_r2 ''output'' = Some (JList [ref ''r1'', ref ''r2''])
   \<and> get_item env0 (JStr ''r2'') = Inr (Some [(''id'', JStr ''r2''), (''data'', JStr ''d2'')])
   \<and> json_loads env0 ''d2'' = Some record2
   \<and> ret (lambda_handler env0 event_r1_r2) = Inl (KeyError (JStr ''PRODUCTS_USED''))
   \<and> written (lambda_handler env0 event_r1_r2) = []"
  by (simp add: eval_defs event_years_def event_r1_r2_def ref_def)

text \<open>
  C6, amended. For a non-empty batch whose Summary has the main entity's name and, as
  attributes, a list of dicts whose list values hold only strings, whose references
  each resolve to a well-formed record (or are skipped as in C5), with a graph library
  that connects, upserts and closes without raising and writes that succeed, the
  handler returns without an error a sequence of identifiers, one for each bucket of
  the partition, all of which are non-empty, and these are the identifiers of the
  records written. The sequence is empty when there is no bucket: in the witness the
  batch whose only reference has no stored record returns the empty sequence, the other
  one two identifiers for two buckets.
\<close>

theorem identifiers_match_buckets:
  assumes summ: "map_of event ''Summary'' = Some summary"
                "main_entity_fields summary = Inr (name, attributes)"
                "wf_attributes attributes"
    and refs: "map_of event ''output'' = Some (JList objs)" "objs \<noteq> []"
              "list_all (reference_ok env) objs"
    and graph: "GraphConnect env = None" "connection_close env = None"
               "\<And>label n attrs edges. \<exists>ident. getOrCreateID env label n attrs edges = Inr ident"
    and writes: "\<And>it. put_item env it = None"
  shows "\<exists>results allEdges lg ids.
           for_output env name objs ([], []) = (Inr (results, allEdges), lg)
         \<and> ret (lambda_handler env event) = Inr ids
         \<and> length ids = length (filter (\<lambda>kb. snd kb \<noteq> []) results)
         \<and> length ids = length results
         \<and> map item_id (written (lambda_handler env event)) = ids"
proof -
  from summ(2) obtain s m where "summary = JObj s" "map_of s ''MAIN_ENTITY'' = Some (JObj m)"
    by (rule main_entity_fields_shape)
  then have ts: "truthy summary" by auto
  from for_output_wf [OF refs(3), of name "([], [])"]
  obtain results allEdges lg where
    fo: "for_output env name objs ([], []) = (Inr (results, allEdges), lg)" by force
  from upsert_ok [OF graph summ(3), of name allEdges]
  obtain ident processed calls where
    up: "upsert_main_entity env name attributes allEdges = (Inr (ident, processed), calls)" by blast
  let ?ids = "map (\<lambda>j. uuid4 env j) [0 ..< 0 + length results]"
  note st = store_results_all_written [of env name "summary_after summary processed" allEdges ident 0 results,
      OF writes]
  have run: "ret (run env summary (JList objs)) = Inr ?ids
      \<and> map item_id (written (run env summary (JList objs))) = ?ids"
    using summ(2) fo up st
      written_item_ids [of env name "summary_after summary processed" allEdges ident 0 results]
    by (simp add: run_def)
  have handler: "lambda_handler env event = run env summary (JList objs)"
    using summ(1) refs(1,2) ts by (simp add: lambda_handler_def)
  have "buckets_ok env results"
    using for_output_ok [OF fo] by (simp add: buckets_ok_empty)
  then have "filter (\<lambda>kb. snd kb \<noteq> []) results = results"
    by (auto simp: buckets_ok_def list_all_iff)
  with fo run handler show ?thesis by simp
qed

theorem identifiers_match_buckets_witness:
  "(\<exists>ids. ret (lambda_handler env0 event0) = Inr ids \<and> length ids = 2
          \<and> map item_id (written (lambda_handler env0 event0)) = ids)
   \<and> length (filter (\<lambda>kb. snd kb \<noteq> []) (fst acc_r1)) = 2
   \<and> ret (lambda_handler env0 event_r4) = Inr []"
proof -
  have summ: "map_of event0 ''Summary'' = Some summary0" "map_of event_r4 ''Summary'' = Some summary0"
    by (simp_all add: event0_def event_r4_def)
  have wfa: "wf_attributes (JList [JObj [(''INDUSTRY'', JList [JStr ''tools'', JStr ''toys''])]])"
    by simp
  have out0: "map_of event0 ''output'' = Some (JList [ref ''r1''])" "[ref ''r1''] \<noteq> []"
    by (simp_all add: event0_def ref_def)
  have out4: "map_of event_r4 ''output'' = Some (JList [ref ''r4''])" "[ref ''r4''] \<noteq> []"
    by (simp_all add: event_r4_def)
  have ok1: "list_all (reference_ok env0) [ref ''r1'']"
    by (simp add: reference_ok_def ref_def env0_def record1_def wf_record_def wf_type_def
          spec_edge_template_def)
  have ok4: "list_all (reference_ok env0) [ref ''r4'']"
    by (simp add: reference_ok_def ref_def env0_def)
  have g: "GraphConnect env0 = None" "connection_close env0 = None"
    "\<And>label n attrs edges. \<exists>ident. getOrCreateID env0 label n attrs edges = Inr ident"
    by (simp_all add: env0_def)
  have w: "\<And>it. put_item env0 it = None" by (simp add: env0_def)
  from identifiers_match_buckets [OF summ(1) main_entity_fields_summary0 wfa out0 ok1 g w]
  obtain results allEdges lg ids where
    fo: "for_output env0 (JStr ''Acme'') [ref ''r1''] ([], []) = (Inr (results, allEdges), lg)" and
    r: "ret (lambda_handler env0 event0) = Inr ids"
       "length ids = length (filter (\<lambda>kb. snd kb \<noteq> []) results)"
       "map item_id (written (lambda_handler env0 event0)) = ids"
    by blast
  have "for_output env0 (JStr ''Acme'') [ref ''r1''] ([], []) =
          (Inr acc_r1, [WarnUnknownType (JStr ''PARTNER'')])"
    using for_output_r1 by (simp only: ref_def)
  with fo have "(results, allEdges) = acc_r1" by simp
  then have res: "results = fst acc_r1" by (metis fst_conv)
  have two: "length (filter (\<lambda>kb. snd kb \<noteq> []) (fst acc_r1)) = 2" by (simp add: acc_r1_def)
  from identifiers_match_buckets [OF summ(2) main_entity_fields_summary0 wfa out4 ok4 g w]
  obtain results4 allEdges4 lg4 ids4 where
    fo4: "for_output env0 (JStr ''Acme'') [ref ''r4''] ([], []) = (Inr (results4, allEdges4), lg4)" and
    r4: "ret (lambda_handler env0 event_r4) = Inr ids4" "length ids4 = length results4"
    by blast
  from fo4 have "results4 = []"
    by (simp add: process_output_item_def fetch_and_group_def ref_def env0_def)
  with r4 have "ret (lambda_handler env0 event_r4) = Inr []" by simp
  with r res two show ?thesis by simp
qed

end
